theory Spec2Isabelle
  imports Complex_Main "HOL-Library.Word" "HOL-Library.Sublist" "HOL-Library.AList"
begin

section \<open>The video processor of video2txt (backend/video\_processor.py)\<close>

text \<open>
  The module has one class, \<open>VideoProcessor\<close>, with a constructor and two methods:
  \<open>download_and_convert\<close> and \<open>get_video_info\<close>. Both are sequences of calls into the
  operating system (\<open>os.path.exists\<close>, \<open>Path.mkdir\<close>, \<open>subprocess\<close>), the yt-dlp library and
  the Python runtime. The embedding keeps the program's own control flow and string
  construction exact and takes what those collaborators answer from an environment record;
  every call the program makes is appended to a call log, so that statements about which
  calls happen, how often and in what order are statements about a list.

  Python strings are modelled as \<open>string\<close>, read as UTF-8 bytes. Durations, which are Python
  floats (or ints) in the source, are modelled as reals: rounding, infinities and NaN are
  outside the model. Only exceptions derived from \<open>Exception\<close> are modelled (the handlers of
  the source catch nothing else); \<open>await asyncio.to_thread(f, x)\<close> is the call \<open>f(x)\<close>.
  Calls to the logger have no effect on results and are left out.
\<close>

subsection \<open>Strings\<close>

definition lower_char :: "char \<Rightarrow> char" where
  "lower_char c =
     (let n = (of_char c :: nat) in if 65 \<le> n \<and> n \<le> 90 then char_of (n + 32) else c)"

text \<open>
  \<open>str.lower()\<close>, on the bytes of the string. Python lowers non-ASCII letters as well; the
  one use in the source is a suffix test against ASCII literals, and no non-ASCII character
  has a lower case that ends in an ASCII character, so the test is the same.
\<close>

definition str_lower :: "string \<Rightarrow> string" where
  "str_lower s = map lower_char s"

text \<open>\<open>s.endswith((a, b, ...))\<close>\<close>

definition endswith_any :: "string \<Rightarrow> string list \<Rightarrow> bool" where
  "endswith_any s sufs = list_ex (\<lambda>x. suffix x s) sufs"

text \<open>\<open>posixpath.basename\<close>: what follows the last slash.\<close>

definition basename :: "string \<Rightarrow> string" where
  "basename p = rev (takeWhile (\<lambda>c. c \<noteq> CHR ''/'') (rev p))"

text \<open>\<open>s.rsplit('.', 1)[0]\<close>: what precedes the last dot, the whole string when it has none.\<close>

definition rsplit_dot_head :: "string \<Rightarrow> string" where
  "rsplit_dot_head s =
     (if CHR ''.'' \<in> set s then rev (tl (dropWhile (\<lambda>c. c \<noteq> CHR ''.'') (rev s))) else s)"

text \<open>
  \<open>str(output_dir / name)\<close> for a \<open>PurePosixPath\<close> whose string form is \<open>d\<close> and a plain file
  name: pathlib drops a lone \<open>.\<close> and adds no separator after a root.
\<close>

definition path_join :: "string \<Rightarrow> string \<Rightarrow> string" where
  "path_join d name =
     (if d = ''.'' then name
      else if suffix ''/'' d then d @ name
      else d @ ''/'' @ name)"

text \<open>
  \<open>s.replace(old, new)\<close>: occurrences are replaced from the left and do not overlap; an
  empty \<open>old\<close> matches before every character and at the end.
\<close>

function str_replace :: "string \<Rightarrow> string \<Rightarrow> string \<Rightarrow> string" where
  "str_replace s old new =
     (if old = [] then concat (map (\<lambda>c. new @ [c]) s) @ new
      else if s = [] then []
      else if prefix old s then new @ str_replace (drop (length old) s) old new
      else hd s # str_replace (tl s) old new)"
  by pat_completeness auto
termination
  by (relation "measure (\<lambda>(s, old, new). length s)") auto

text \<open>
  \<open>shlex.quote\<close>: the empty string is \<open>''\<close>; a string of safe characters
  (\<open>[A-Za-z0-9_@%+=:,./-]\<close>) is itself; any other is put in single quotes, with each
  single quote inside written \<open>'"'"'\<close>.
\<close>

definition shlex_safe :: "char \<Rightarrow> bool" where
  "shlex_safe c =
     (let n = (of_char c :: nat) in
        (48 \<le> n \<and> n \<le> 57) \<or> (65 \<le> n \<and> n \<le> 90) \<or> (97 \<le> n \<and> n \<le> 122) \<or>
        c \<in> set ''_@%+=:,./-'')"

definition squote :: char where
  "squote = CHR 0x27"

definition dquote :: char where
  "dquote = CHR 0x22"

definition shlex_quote :: "string \<Rightarrow> string" where
  "shlex_quote s =
     (if s = [] then [squote, squote]
      else if list_all shlex_safe s then s
      else [squote] @ str_replace s [squote] [squote, dquote, squote, dquote, squote] @ [squote])"

text \<open>
  \<open>str(uuid.uuid4())\<close>: the 128-bit value as 32 lower-case hexadecimal digits, grouped
  8-4-4-4-12.
\<close>

definition hex_digit :: "nat \<Rightarrow> char" where
  "hex_digit n = ''0123456789abcdef'' ! (n mod 16)"

definition uuid_hex :: "128 word \<Rightarrow> string" where
  "uuid_hex u = map (\<lambda>i. hex_digit (unat u div 16 ^ (31 - i))) [0..<32]"

definition uuid_str :: "128 word \<Rightarrow> string" where
  "uuid_str u =
     (let h = uuid_hex u in
        take 8 h @ ''-'' @ take 4 (drop 8 h) @ ''-'' @ take 4 (drop 12 h) @ ''-'' @
        take 4 (drop 16 h) @ ''-'' @ drop 20 h)"

subsection \<open>Exceptions\<close>

text \<open>
  An exception has its class, the text \<open>str(e)\<close> gives, and its \<open>__context__\<close>: the exception
  that was being handled when it was raised.
\<close>

datatype exn = Exn (exn_class: string) (exn_str: string) (exn_context: "exn option")

text \<open>
  \<open>except Exception as e: raise Exception(f"<summary>{str(e)}")\<close>: a new exception of class
  \<open>Exception\<close>; raised inside the handler, its context is \<open>e\<close>.
\<close>

definition reraise :: "string \<Rightarrow> exn \<Rightarrow> exn" where
  "reraise summary e = Exn ''Exception'' (summary @ exn_str e) (Some e)"

text \<open>The three message literals of the source, as UTF-8 bytes.\<close>

definition processing_failed :: string where
  "processing_failed =
     [CHR 0xE8, CHR 0xA7, CHR 0x86, CHR 0xE9, CHR 0xA2, CHR 0x91, CHR 0xE5, CHR 0xA4,
      CHR 0x84, CHR 0xE7, CHR 0x90, CHR 0x86, CHR 0xE5, CHR 0xA4, CHR 0xB1, CHR 0xE8,
      CHR 0xB4, CHR 0xA5, CHR 0x3A, CHR 0x20]"

definition audio_not_found :: string where
  "audio_not_found =
     [CHR 0xE6, CHR 0x9C, CHR 0xAA, CHR 0xE6, CHR 0x89, CHR 0xBE, CHR 0xE5, CHR 0x88,
      CHR 0xB0, CHR 0xE4, CHR 0xB8, CHR 0x8B, CHR 0xE8, CHR 0xBD, CHR 0xBD, CHR 0xE7,
      CHR 0x9A, CHR 0x84, CHR 0xE9, CHR 0x9F, CHR 0xB3, CHR 0xE9, CHR 0xA2, CHR 0x91,
      CHR 0xE6, CHR 0x96, CHR 0x87, CHR 0xE4, CHR 0xBB, CHR 0xB6]"


subsection \<open>Python objects\<close>

text \<open>
  The options of yt-dlp are a dictionary that holds lists and a dictionary: mutable objects,
  shared by reference. They live in a store; an address is an index into it and a new
  object is put at its end. A dictionary keeps its keys in insertion order.
\<close>

type_synonym addr = nat

datatype pyval = PBool bool | PStr string | PRef addr

datatype pyobj = PyDict "(string \<times> pyval) list" | PyList "pyval list"

type_synonym heap = "pyobj list"

definition heap_alloc :: "pyobj \<Rightarrow> heap \<Rightarrow> addr \<times> heap" where
  "heap_alloc obj h = (length h, h @ [obj])"

definition heap_lookup :: "heap \<Rightarrow> addr \<Rightarrow> pyobj option" where
  "heap_lookup h a = (if a < length h then Some (h ! a) else None)"

text \<open>
  The values of the metadata dictionary that yt-dlp returns, as far as the program reads
  them: \<open>None\<close>, a string or a number.
\<close>

datatype jval = JNull | JStr string | JNum real

type_synonym info = "(string \<times> jval) list"

text \<open>\<open>info.get(key, default)\<close>\<close>

definition info_get :: "info \<Rightarrow> string \<Rightarrow> jval \<Rightarrow> jval" where
  "info_get i k d = (case map_of i k of None \<Rightarrow> d | Some v \<Rightarrow> v)"

fun truthy :: "jval \<Rightarrow> bool" where
  "truthy JNull = False"
| "truthy (JStr s) = (s \<noteq> [])"
| "truthy (JNum r) = (r \<noteq> 0)"

subsection \<open>The environment and the state\<close>

text \<open>
  The places of the source that run a shell command.
\<close>

datatype site = ExtractAudio | ProbeSource | ProbeAudio | Repair | Reprobe

datatype call =
    MkDir string
  | Uuid4
  | PathExists string
  | YoutubeDL addr "(string \<times> pyval) list"
  | ExtractInfo string bool
  | Download "string list"
  | YdlExit
  | CheckCall site string
  | CheckOutput site string

text \<open>
  What the collaborators answer. \<open>'w\<close> is the state of the world outside the interpreter
  (file system, network, random source). The yt-dlp calls are handed objects of the store
  and may change it; the others see strings only. A downloader object is known by the
  address of the options dictionary it was made with.
\<close>

record 'w env =
  mkdir :: "string \<Rightarrow> 'w \<Rightarrow> exn option \<times> 'w"
  uuid4 :: "'w \<Rightarrow> 128 word \<times> 'w"
  path_exists :: "string \<Rightarrow> 'w \<Rightarrow> bool"
  ydl_init :: "addr \<Rightarrow> heap \<Rightarrow> 'w \<Rightarrow> exn option \<times> heap \<times> 'w"
  ydl_extract_info :: "addr \<Rightarrow> string \<Rightarrow> bool \<Rightarrow> heap \<Rightarrow> 'w \<Rightarrow> (exn + info option) \<times> heap \<times> 'w"
  ydl_download :: "addr \<Rightarrow> string list \<Rightarrow> heap \<Rightarrow> 'w \<Rightarrow> exn option \<times> heap \<times> 'w"
  ydl_exit :: "addr \<Rightarrow> exn option \<Rightarrow> heap \<Rightarrow> 'w \<Rightarrow> exn option \<times> heap \<times> 'w"
  check_call :: "string \<Rightarrow> 'w \<Rightarrow> exn option \<times> 'w"
  check_output :: "string \<Rightarrow> 'w \<Rightarrow> (exn + string) \<times> 'w"
  bytes_decode :: "string \<Rightarrow> exn + string"
  str_strip :: "string \<Rightarrow> string"
  py_float :: "string \<Rightarrow> exn + real"

record 'w state =
  heap :: heap
  world :: 'w
  calls :: "call list"

definition sys_call :: "('w \<Rightarrow> 'r \<times> 'w) \<Rightarrow> call \<Rightarrow> 'w state \<Rightarrow> 'r \<times> 'w state" where
  "sys_call f c s =
     (case f (world s) of (r, w) \<Rightarrow> (r, s\<lparr>world := w, calls := calls s @ [c]\<rparr>))"

definition lib_call ::
  "(heap \<Rightarrow> 'w \<Rightarrow> 'r \<times> heap \<times> 'w) \<Rightarrow> call \<Rightarrow> 'w state \<Rightarrow> 'r \<times> 'w state" where
  "lib_call f c s =
     (case f (heap s) (world s) of
        (r, h, w) \<Rightarrow> (r, s\<lparr>heap := h, world := w, calls := calls s @ [c]\<rparr>))"

subsection \<open>The constructor\<close>

text \<open>
  \<open>VideoProcessor.__init__\<close> (lines 12-28). The instance holds a reference to its options
  dictionary; the post-processor dictionary and the two lists are objects of their own.
\<close>

record video_processor =
  ydl_opts :: addr

definition video_processor_init :: "heap \<Rightarrow> video_processor \<times> heap" where
  "video_processor_init h0 =
     (case heap_alloc (PyDict [(''key'', PStr ''FFmpegExtractAudio''),
                               (''preferredcodec'', PStr ''m4a''),
                               (''preferredquality'', PStr ''192'')]) h0 of
        (pp, h1) \<Rightarrow>
     (case heap_alloc (PyList [PRef pp]) h1 of
        (pps, h2) \<Rightarrow>
     (case heap_alloc (PyList [PStr ''-ac'', PStr ''1'', PStr ''-ar'', PStr ''16000'',
                               PStr ''-movflags'', PStr ''+faststart'']) h2 of
        (args, h3) \<Rightarrow>
     (case heap_alloc (PyDict [(''format'', PStr ''bestaudio/best''),
                               (''outtmpl'', PStr ''%(title)s.%(ext)s''),
                               (''postprocessors'', PRef pps),
                               (''postprocessor_args'', PRef args),
                               (''prefer_ffmpeg'', PBool True),
                               (''quiet'', PBool True),
                               (''no_warnings'', PBool True),
                               (''noplaylist'', PBool True)]) h3 of
        (opts, h4) \<Rightarrow> (\<lparr>ydl_opts = opts\<rparr>, h4)))))"

subsection \<open>Dictionary operations\<close>

text \<open>
  \<open>obj.copy()\<close>: a new object with the same items (a shallow copy: the items that are
  references still point to the same objects). An address outside the store does not
  arise, since the program only holds addresses it was given by an allocation.
\<close>

definition obj_copy :: "heap \<Rightarrow> addr \<Rightarrow> exn + addr \<times> heap" where
  "obj_copy h a =
     (case heap_lookup h a of
        None \<Rightarrow> Inl (Exn ''ReferenceError'' ''dangling reference'' None)
      | Some obj \<Rightarrow> Inr (heap_alloc obj h))"

text \<open>\<open>obj[key] = v\<close> with a string key: on a list it raises \<open>TypeError\<close>.\<close>

definition obj_setitem :: "heap \<Rightarrow> addr \<Rightarrow> string \<Rightarrow> pyval \<Rightarrow> exn + heap" where
  "obj_setitem h a k v =
     (case heap_lookup h a of
        None \<Rightarrow> Inl (Exn ''ReferenceError'' ''dangling reference'' None)
      | Some (PyList xs) \<Rightarrow>
          Inl (Exn ''TypeError'' ''list indices must be integers or slices, not str'' None)
      | Some (PyDict kvs) \<Rightarrow> Inr (h[a := PyDict (AList.update k v kvs)]))"

definition dict_items :: "heap \<Rightarrow> addr \<Rightarrow> (string \<times> pyval) list" where
  "dict_items h a = (case heap_lookup h a of Some (PyDict kvs) \<Rightarrow> kvs | _ \<Rightarrow> [])"

subsection \<open>Shell commands\<close>

text \<open>The probe command of lines 99 and 122.\<close>

definition probe_cmd :: "string \<Rightarrow> string" where
  "probe_cmd path =
     ''ffprobe -v error -show_entries format=duration -of default=noprint_wrappers=1:nokey=1 ''
     @ shlex_quote path"

text \<open>The extraction command of lines 84-93.\<close>

definition ffmpeg_cmd :: "string \<Rightarrow> string \<Rightarrow> string" where
  "ffmpeg_cmd local_video_path audio_file =
     ''ffmpeg -y -i '' @ shlex_quote local_video_path @ '' '' @
     ''-vn '' @ ''-ac 1 '' @ ''-ar 16000 '' @ ''-c:a aac '' @ ''-b:a 192k '' @
     ''-movflags +faststart '' @ shlex_quote audio_file"

text \<open>The repair command of line 134.\<close>

definition fix_cmd :: "string \<Rightarrow> string \<Rightarrow> string" where
  "fix_cmd audio_file fixed_path =
     ''ffmpeg -y -i '' @ shlex_quote audio_file @
     '' -vn -c:a aac -b:a 160k -movflags +faststart '' @ shlex_quote fixed_path"

subsection \<open>Probing a duration\<close>

text \<open>
  Lines 100-101 and 123-124:
  \<open>out = subprocess.check_output(cmd, shell=True).decode().strip()\<close> and
  \<open>float(out) if out else 0.0\<close>. The result is the duration, or the exception that the
  command, the decoding or the conversion raised; the caller handles it.
\<close>

definition probe_duration ::
  "'w env \<Rightarrow> site \<Rightarrow> string \<Rightarrow> 'w state \<Rightarrow> (exn + real) \<times> 'w state" where
  "probe_duration E st cmd s =
     (case sys_call (check_output E cmd) (CheckOutput st cmd) s of
        (Inl e, s1) \<Rightarrow> (Inl e, s1)
      | (Inr bytes, s1) \<Rightarrow>
          (case bytes_decode E bytes of
             Inl e \<Rightarrow> (Inl e, s1)
           | Inr txt \<Rightarrow>
               (let out = str_strip E txt in
                  if out \<noteq> [] then (py_float E out, s1) else (Inr 0, s1))))"

text \<open>The handlers of lines 102-104 and 125-126: a probe that raised gives 0.0.\<close>

definition duration_or_zero :: "exn + real \<Rightarrow> real" where
  "duration_or_zero r = (case r of Inl e \<Rightarrow> 0 | Inr d \<Rightarrow> d)"

subsection \<open>download\_and\_convert\<close>

definition video_suffixes :: "string list" where
  "video_suffixes = [''.mp4'', ''.mov'', ''.avi'', ''.flv'']"

text \<open>Line 55: \<open>os.path.exists(url) and url.lower().endswith(('.mp4', '.mov', '.avi', '.flv'))\<close>\<close>

definition is_local_video :: "'w env \<Rightarrow> string \<Rightarrow> 'w \<Rightarrow> bool" where
  "is_local_video E url w = (path_exists E url w \<and> endswith_any (str_lower url) video_suffixes)"

text \<open>
  Lines 44-64: the output directory, the identifier, the classification of the input and
  the options of this call. The result is the identifier, \<open>is_local_file\<close> and the address
  of the options of this call.
\<close>

definition prepare ::
  "'w env \<Rightarrow> video_processor \<Rightarrow> string \<Rightarrow> string \<Rightarrow> 'w state
     \<Rightarrow> (exn + string \<times> bool \<times> addr) \<times> 'w state" where
  "prepare E self url output_dir s =
     (case sys_call (mkdir E output_dir) (MkDir output_dir) s of
        (Some e, s1) \<Rightarrow> (Inl e, s1)
      | (None, s1) \<Rightarrow>
          (case sys_call (uuid4 E) Uuid4 s1 of
             (u, s2) \<Rightarrow>
               (let unique_id = take 8 (uuid_str u);
                    output_template = path_join output_dir (''audio_'' @ unique_id @ ''.%(ext)s'');
                    is_local_file = is_local_video E url (world s2);
                    s3 = s2\<lparr>calls := calls s2 @ [PathExists url]\<rparr>
                in case obj_copy (heap s3) (ydl_opts self) of
                     Inl e \<Rightarrow> (Inl e, s3)
                   | Inr (a, h) \<Rightarrow>
                       (case obj_setitem h a ''outtmpl'' (PStr output_template) of
                          Inl e \<Rightarrow> (Inl e, s3\<lparr>heap := h\<rparr>)
                        | Inr h' \<Rightarrow> (Inr (unique_id, is_local_file, a), s3\<lparr>heap := h'\<rparr>)))))"

text \<open>
  \<open>with yt_dlp.YoutubeDL(opts) as ydl: body\<close>. The constructor may raise; the exit of the
  context manager is told the exception of the body, does not suppress it, and may raise
  itself. The call log keeps the items of the options dictionary as they were handed over.
\<close>

definition with_ydl ::
  "'w env \<Rightarrow> addr \<Rightarrow> ('w state \<Rightarrow> (exn + 'a) \<times> 'w state) \<Rightarrow> 'w state
     \<Rightarrow> (exn + 'a) \<times> 'w state" where
  "with_ydl E a body s =
     (case lib_call (ydl_init E a) (YoutubeDL a (dict_items (heap s) a)) s of
        (Some e, s1) \<Rightarrow> (Inl e, s1)
      | (None, s1) \<Rightarrow>
          (case body s1 of
             (r, s2) \<Rightarrow>
               (case lib_call (ydl_exit E a (case r of Inl e \<Rightarrow> Some e | Inr x \<Rightarrow> None))
                       YdlExit s2 of
                  (Some e', s3) \<Rightarrow> (Inl e', s3)
                | (None, s3) \<Rightarrow> (r, s3))))"

definition none_has_no_get :: exn where
  "none_has_no_get =
     Exn ''AttributeError''
       ([squote] @ ''NoneType'' @ [squote] @ '' object has no attribute '' @
        [squote] @ ''get'' @ [squote])
       None"

text \<open>
  Lines 71-75, the body of the \<open>with\<close>: the metadata (\<open>extract_info(url, False)\<close>), the title
  and the expected duration (\<open>info.get('duration') or 0\<close>), then the download.
\<close>

definition fetch_remote ::
  "'w env \<Rightarrow> addr \<Rightarrow> string \<Rightarrow> 'w state \<Rightarrow> (exn + jval \<times> jval) \<times> 'w state" where
  "fetch_remote E ydl url s =
     (case lib_call (ydl_extract_info E ydl url False) (ExtractInfo url False) s of
        (Inl e, s1) \<Rightarrow> (Inl e, s1)
      | (Inr None, s1) \<Rightarrow> (Inl none_has_no_get, s1)
      | (Inr (Some i), s1) \<Rightarrow>
          (let video_title = info_get i ''title'' (JStr ''unknown'');
               d = info_get i ''duration'' JNull;
               expected_duration = (if truthy d then d else JNum 0)
           in case lib_call (ydl_download E ydl [url]) (Download [url]) s1 of
                (Some e, s2) \<Rightarrow> (Inl e, s2)
              | (None, s2) \<Rightarrow> (Inr (video_title, expected_duration), s2)))"

text \<open>
  Lines 58 and 79-104, the local branch: the title is the base name of the path, the audio
  is extracted by ffmpeg (a failure is raised), and the duration of the source is probed
  (a failure gives 0.0).
\<close>

definition extract_local ::
  "'w env \<Rightarrow> string \<Rightarrow> string \<Rightarrow> string \<Rightarrow> 'w state
     \<Rightarrow> (exn + string \<times> jval \<times> jval) \<times> 'w state" where
  "extract_local E url output_dir unique_id s =
     (let local_video_path = url;
          video_title = JStr (basename local_video_path);
          audio_file = path_join output_dir (''audio_'' @ unique_id @ ''.m4a'');
          cmd = ffmpeg_cmd local_video_path audio_file
      in case sys_call (check_call E cmd) (CheckCall ExtractAudio cmd) s of
           (Some e, s1) \<Rightarrow> (Inl e, s1)
         | (None, s1) \<Rightarrow>
             (case probe_duration E ProbeSource (probe_cmd local_video_path) s1 of
                (r, s2) \<Rightarrow> (Inr (audio_file, video_title, JNum (duration_or_zero r)), s2)))"

text \<open>
  Lines 111-117, the \<open>for ... else\<close>: the first candidate that exists, in the order of the
  list; \<open>None\<close> when the loop ends without \<open>break\<close>.
\<close>

fun probe_fallbacks ::
  "'w env \<Rightarrow> string \<Rightarrow> string \<Rightarrow> string list \<Rightarrow> 'w state \<Rightarrow> string option \<times> 'w state" where
  "probe_fallbacks E output_dir unique_id [] s = (None, s)"
| "probe_fallbacks E output_dir unique_id (ext # exts) s =
     (let potential_file = path_join output_dir (''audio_'' @ unique_id @ ''.'' @ ext);
          s1 = s\<lparr>calls := calls s @ [PathExists potential_file]\<rparr>
      in if path_exists E potential_file (world s) then (Some potential_file, s1)
         else probe_fallbacks E output_dir unique_id exts s1)"

definition fallback_exts :: "string list" where
  "fallback_exts = [''webm'', ''mp4'', ''mp3'', ''wav'']"

text \<open>Lines 108-117, run on the remote branch only.\<close>

definition locate_output ::
  "'w env \<Rightarrow> string \<Rightarrow> string \<Rightarrow> 'w state \<Rightarrow> (exn + string) \<times> 'w state" where
  "locate_output E output_dir unique_id s =
     (let audio_file = path_join output_dir (''audio_'' @ unique_id @ ''.m4a'');
          s1 = s\<lparr>calls := calls s @ [PathExists audio_file]\<rparr>
      in if path_exists E audio_file (world s) then (Inr audio_file, s1)
         else (case probe_fallbacks E output_dir unique_id fallback_exts s1 of
                 (Some p, s2) \<Rightarrow> (Inr p, s2)
               | (None, s2) \<Rightarrow> (Inl (Exn ''Exception'' audio_not_found None), s2)))"

text \<open>
  Lines 44-117: everything up to the audio file, its title and the expected duration.
\<close>

definition acquire ::
  "'w env \<Rightarrow> video_processor \<Rightarrow> string \<Rightarrow> string \<Rightarrow> 'w state
     \<Rightarrow> (exn + string \<times> string \<times> jval \<times> jval) \<times> 'w state" where
  "acquire E self url output_dir s =
     (case prepare E self url output_dir s of
        (Inl e, s1) \<Rightarrow> (Inl e, s1)
      | (Inr (unique_id, is_local_file, opts), s1) \<Rightarrow>
          (if \<not> is_local_file then
             (case with_ydl E opts (fetch_remote E opts url) s1 of
                (Inl e, s2) \<Rightarrow> (Inl e, s2)
              | (Inr (video_title, expected_duration), s2) \<Rightarrow>
                  (case locate_output E output_dir unique_id s2 of
                     (Inl e, s3) \<Rightarrow> (Inl e, s3)
                   | (Inr audio_file, s3) \<Rightarrow>
                       (Inr (unique_id, audio_file, video_title, expected_duration), s3)))
           else
             (case extract_local E url output_dir unique_id s1 of
                (Inl e, s2) \<Rightarrow> (Inl e, s2)
              | (Inr (audio_file, video_title, expected_duration), s2) \<Rightarrow>
                  (Inr (unique_id, audio_file, video_title, expected_duration), s2))))"

definition float_minus_str :: exn where
  "float_minus_str =
     Exn ''TypeError''
       (''unsupported operand type(s) for -: '' @ [squote] @ ''float'' @ [squote] @
        '' and '' @ [squote] @ ''str'' @ [squote])
       None"

text \<open>
  Line 128: \<open>expected_duration and actual_duration and
  abs(actual_duration - expected_duration) / expected_duration > 0.1\<close>. The conjunction
  stops at the first operand that is false; the subtraction is reached with a non-empty
  string only if the metadata gave one as duration, and raises then.
\<close>

definition duration_mismatch :: "jval \<Rightarrow> real \<Rightarrow> exn + bool" where
  "duration_mismatch expected_duration actual_duration =
     (if \<not> truthy expected_duration then Inr False
      else if actual_duration = 0 then Inr False
      else (case expected_duration of
              JNum e \<Rightarrow> Inr (\<bar>actual_duration - e\<bar> / e > 1 / 10)
            | JStr x \<Rightarrow> Inl float_minus_str
            | JNull \<Rightarrow> Inr False))"

text \<open>
  Lines 132-141, the repair and its handler. Once the re-encoding command has succeeded
  the fixed path is the audio file; the probe that follows is for the log only and what
  it raises is caught. Its command is \<open>probe_cmd\<close>, the command of line 122, after a
  replacement.
\<close>

definition repair ::
  "'w env \<Rightarrow> string \<Rightarrow> string \<Rightarrow> string \<Rightarrow> string \<Rightarrow> 'w state \<Rightarrow> string \<times> 'w state" where
  "repair E output_dir unique_id audio_file pcmd s =
     (let fixed_path = path_join output_dir (''audio_'' @ unique_id @ ''_fixed.m4a'');
          cmd = fix_cmd audio_file fixed_path
      in case sys_call (check_call E cmd) (CheckCall Repair cmd) s of
           (Some e, s1) \<Rightarrow> (audio_file, s1)
         | (None, s1) \<Rightarrow>
             (let audio_file' = fixed_path;
                  cmd2 = str_replace pcmd
                           (shlex_quote (rsplit_dot_head audio_file' @ ''.m4a''))
                           (shlex_quote audio_file')
              in case probe_duration E Reprobe cmd2 s1 of
                   (r, s2) \<Rightarrow> (audio_file', s2)))"

text \<open>Lines 120-144: the probe of the audio file, the comparison and the repair.\<close>

definition validate ::
  "'w env \<Rightarrow> string \<Rightarrow> string \<Rightarrow> string \<Rightarrow> jval \<Rightarrow> 'w state \<Rightarrow> (exn + string) \<times> 'w state" where
  "validate E output_dir unique_id audio_file expected_duration s =
     (let pcmd = probe_cmd audio_file
      in case probe_duration E ProbeAudio pcmd s of
           (r, s1) \<Rightarrow>
             (let actual_duration = duration_or_zero r
              in case duration_mismatch expected_duration actual_duration of
                   Inl e \<Rightarrow> (Inl e, s1)
                 | Inr False \<Rightarrow> (Inr audio_file, s1)
                 | Inr True \<Rightarrow>
                     (case repair E output_dir unique_id audio_file pcmd s1 of
                        (p, s2) \<Rightarrow> (Inr p, s2))))"

text \<open>The body of the outer \<open>try\<close>, lines 43-144.\<close>

definition download_and_convert_try ::
  "'w env \<Rightarrow> video_processor \<Rightarrow> string \<Rightarrow> string \<Rightarrow> 'w state
     \<Rightarrow> (exn + string \<times> jval) \<times> 'w state" where
  "download_and_convert_try E self url output_dir s =
     (case acquire E self url output_dir s of
        (Inl e, s1) \<Rightarrow> (Inl e, s1)
      | (Inr (unique_id, audio_file, video_title, expected_duration), s1) \<Rightarrow>
          (case validate E output_dir unique_id audio_file expected_duration s1 of
             (Inl e, s2) \<Rightarrow> (Inl e, s2)
           | (Inr p, s2) \<Rightarrow> (Inr (p, video_title), s2)))"

text \<open>
  \<open>download_and_convert\<close> (lines 30-148): the body, and the handler of lines 146-148 that
  raises a new exception for whatever the body raised.
\<close>

definition download_and_convert ::
  "'w env \<Rightarrow> video_processor \<Rightarrow> string \<Rightarrow> string \<Rightarrow> 'w state
     \<Rightarrow> (exn + string \<times> jval) \<times> 'w state" where
  "download_and_convert E self url output_dir s =
     (case download_and_convert_try E self url output_dir s of
        (Inl e, s1) \<Rightarrow> (Inl (reraise processing_failed e), s1)
      | (Inr r, s1) \<Rightarrow> (Inr r, s1))"

subsection \<open>get\_video\_info\<close>



subsection \<open>Reading the call log\<close>

text \<open>The calls made between two states: what one invocation added to the log.\<close>

definition new_calls :: "'w state \<Rightarrow> 'w state \<Rightarrow> call list" where
  "new_calls s s' = drop (length (calls s)) (calls s')"

text \<open>A repair attempt is a run of the re-encoding command of line 135.\<close>

fun is_repair :: "call \<Rightarrow> bool" where
  "is_repair (CheckCall Repair cmd) = True"
| "is_repair c = False"

text \<open>The calls into the download library, the only ones of the program that reach the network.\<close>

fun is_downloader :: "call \<Rightarrow> bool" where
  "is_downloader (YoutubeDL a items) = True"
| "is_downloader (ExtractInfo url d) = True"
| "is_downloader (Download urls) = True"
| "is_downloader YdlExit = True"
| "is_downloader c = False"



text \<open>The local branch is the one that runs the extraction command of line 95.\<close>

fun is_local_extraction :: "call \<Rightarrow> bool" where
  "is_local_extraction (CheckCall ExtractAudio cmd) = True"
| "is_local_extraction c = False"

subsection \<open>The words of the specification\<close>

text \<open>The extension of a path: what follows its last dot, if it has one.\<close>

definition extension :: "string \<Rightarrow> string option" where
  "extension p =
     (if CHR ''.'' \<in> set p then Some (rev (takeWhile (\<lambda>c. c \<noteq> CHR ''.'') (rev p))) else None)"

definition video_extensions :: "string list" where
  "video_extensions = [''mp4'', ''mov'', ''avi'', ''flv'']"

text \<open>
  The classification as the specification words it: the path exists and its extension is
  one of the list.
\<close>

definition spec_is_local :: "'w env \<Rightarrow> string \<Rightarrow> 'w \<Rightarrow> bool" where
  "spec_is_local E url w =
     (path_exists E url w \<and> (case extension url of None \<Rightarrow> False | Some x \<Rightarrow> x \<in> set video_extensions))"

text \<open>The same with the extension compared without regard to case.\<close>

definition spec_is_local_ci :: "'w env \<Rightarrow> string \<Rightarrow> 'w \<Rightarrow> bool" where
  "spec_is_local_ci E url w =
     (path_exists E url w \<and>
      (case extension url of None \<Rightarrow> False | Some x \<Rightarrow> str_lower x \<in> set video_extensions))"

text \<open>
  The download library keeps to its own objects: a call changes no object of the store
  other than the options dictionary of its downloader, and removes none.
\<close>

definition keeps_frame :: "addr \<Rightarrow> (heap \<Rightarrow> 'w \<Rightarrow> 'r \<times> heap \<times> 'w) \<Rightarrow> bool" where
  "keeps_frame a f =
     (\<forall>h w. case f h w of
        (r, h', w') \<Rightarrow> length h \<le> length h' \<and> (\<forall>b < length h. b \<noteq> a \<longrightarrow> h' ! b = h ! b))"

definition library_frame :: "'w env \<Rightarrow> bool" where
  "library_frame E =
     (\<forall>a. keeps_frame a (ydl_init E a) \<and>
          (\<forall>url d. keeps_frame a (ydl_extract_info E a url d)) \<and>
          (\<forall>urls. keeps_frame a (ydl_download E a urls)) \<and>
          (\<forall>x. keeps_frame a (ydl_exit E a x)))"

subsection \<open>A simulated environment\<close>

text \<open>
  An environment to run the program in: the world is the list of the paths that exist; the
  directory can be made, the random identifier is 0, the downloader returns the metadata
  \<open>meta\<close> and its download raises \<open>dl\<close> or else creates the files \<open>produced\<close>; \<open>cc\<close> and \<open>co\<close>
  answer the shell commands. It leaves the store alone.
\<close>

definition sim_strip :: "string \<Rightarrow> string" where
  "sim_strip s =
     (let ws = (\<lambda>c. c \<in> set [CHR '' '', CHR 0x0A, CHR 0x0D, CHR 0x09])
      in rev (dropWhile ws (rev (dropWhile ws s))))"

definition sim_float :: "string \<Rightarrow> exn + real" where
  "sim_float s =
     (if s = ''100.0'' then Inr 100
      else if s = ''95.0'' then Inr 95
      else if s = ''50.0'' then Inr 50
      else Inl (Exn ''ValueError'' (''could not convert string to float: '' @ s) None))"

definition sim_env ::
  "(exn + info option) \<Rightarrow> exn option \<Rightarrow> string list \<Rightarrow> (string \<Rightarrow> exn option)
     \<Rightarrow> (string \<Rightarrow> exn + string) \<Rightarrow> (string list) env" where
  "sim_env meta dl produced cc co =
     \<lparr>mkdir = (\<lambda>d w. (None, w)),
      uuid4 = (\<lambda>w. (0, w)),
      path_exists = (\<lambda>p w. p \<in> set w),
      ydl_init = (\<lambda>a h w. (None, h, w)),
      ydl_extract_info = (\<lambda>a url d h w. (meta, h, w)),
      ydl_download = (\<lambda>a urls h w. (dl, h, if dl = None then w @ produced else w)),
      ydl_exit = (\<lambda>a x h w. (None, h, w)),
      check_call = (\<lambda>cmd w. (cc cmd, w)),
      check_output = (\<lambda>cmd w. (co cmd, w)),
      bytes_decode = Inr,
      str_strip = sim_strip,
      py_float = sim_float\<rparr>"

definition sim_meta :: info where
  "sim_meta = [(''title'', JStr ''A talk''), (''duration'', JNum 100)]"

definition sim_state :: "string list \<Rightarrow> (string list) state" where
  "sim_state files = \<lparr>heap = snd (video_processor_init []), world = files, calls = []\<rparr>"

definition sim_self :: video_processor where
  "sim_self = fst (video_processor_init [])"

definition sim_probe_error :: exn where
  "sim_probe_error = Exn ''CalledProcessError'' ''ffprobe returned non-zero exit status 1.'' None"


datatype phase = Resolution | Acquisition | LocalExtraction | OutputLocation | Validation

definition failed_phase ::
  "'w env \<Rightarrow> video_processor \<Rightarrow> string \<Rightarrow> string \<Rightarrow> 'w state \<Rightarrow> phase option" where
  "failed_phase E self url output_dir s =
     (case prepare E self url output_dir s of
        (Inl e, s1) \<Rightarrow> Some Resolution
      | (Inr (unique_id, is_local_file, opts), s1) \<Rightarrow>
          (if is_local_file then
             (case extract_local E url output_dir unique_id s1 of
                (Inl e, s2) \<Rightarrow> Some LocalExtraction
              | (Inr (audio_file, video_title, expected_duration), s2) \<Rightarrow>
                  (case validate E output_dir unique_id audio_file expected_duration s2 of
                     (Inl e, s3) \<Rightarrow> Some Validation
                   | (Inr p, s3) \<Rightarrow> None))
           else
             (case with_ydl E opts (fetch_remote E opts url) s1 of
                (Inl e, s2) \<Rightarrow> Some Acquisition
              | (Inr (video_title, expected_duration), s2) \<Rightarrow>
                  (case locate_output E output_dir unique_id s2 of
                     (Inl e, s3) \<Rightarrow> Some OutputLocation
                   | (Inr audio_file, s3) \<Rightarrow>
                       (case validate E output_dir unique_id audio_file expected_duration s3 of
                          (Inl e, s4) \<Rightarrow> Some Validation
                        | (Inr p, s4) \<Rightarrow> None)))))"

definition sim_no_memory :: exn where
  "sim_no_memory = Exn ''OSError'' ''[Errno 12] Cannot allocate memory'' None"

section \<open>Properties\<close>

subsection \<open>The call log of each phase\<close>

lemma sys_call_calls:
  "sys_call f c s = (r, s1) \<Longrightarrow> calls s1 = calls s @ [c] \<and> heap s1 = heap s"
  by (auto simp: sys_call_def split: prod.splits)

lemma lib_call_calls: "lib_call f c s = (r, s1) \<Longrightarrow> calls s1 = calls s @ [c]"
  by (auto simp: lib_call_def split: prod.splits)

lemma probe_duration_calls:
  "probe_duration E st cmd s = (r, s1) \<Longrightarrow>
     calls s1 = calls s @ [CheckOutput st cmd] \<and> heap s1 = heap s"
  by (auto simp: probe_duration_def Let_def split: prod.splits sum.splits if_splits
      dest!: sys_call_calls)

lemma prepare_calls:
  "prepare E self url d s = (r, s1) \<Longrightarrow>
     (calls s1 = calls s @ [MkDir d] \<and> isl r) \<or>
     calls s1 = calls s @ [MkDir d, Uuid4, PathExists url]"
  by (auto simp: prepare_def Let_def split: prod.splits sum.splits option.splits if_splits
      dest!: sys_call_calls)

lemma fetch_remote_calls:
  "fetch_remote E a url s = (r, s1) \<Longrightarrow>
     (calls s1 = calls s @ [ExtractInfo url False] \<and> isl r) \<or>
     calls s1 = calls s @ [ExtractInfo url False, Download [url]]"
  by (auto simp: fetch_remote_def Let_def split: prod.splits sum.splits option.splits if_splits
      dest!: lib_call_calls)

lemma with_ydl_fetch_calls:
  assumes "with_ydl E a (fetch_remote E a url) s = (r, s1)"
  shows "(calls s1 = calls s @ [YoutubeDL a (dict_items (heap s) a)] \<and> isl r) \<or>
         (calls s1 = calls s @ [YoutubeDL a (dict_items (heap s) a), ExtractInfo url False, YdlExit]
            \<and> isl r) \<or>
         calls s1 = calls s @ [YoutubeDL a (dict_items (heap s) a), ExtractInfo url False,
            Download [url], YdlExit]"
  using assms
  by (auto simp: with_ydl_def split: prod.splits option.splits
      dest!: lib_call_calls fetch_remote_calls)

lemma probe_fallbacks_calls:
  "probe_fallbacks E d uid exts s = (r, s1) \<Longrightarrow> \<exists>ps. calls s1 = calls s @ map PathExists ps"
proof (induction exts arbitrary: s)
  case Nil
  then show ?case by simp
next
  case (Cons ext exts)
  let ?p = "path_join d (''audio_'' @ uid @ ''.'' @ ext)"
  show ?case
  proof (cases "path_exists E ?p (world s)")
    case True
    with Cons.prems have "calls s1 = calls s @ map PathExists [?p]"
      by (auto simp: Let_def)
    then show ?thesis by blast
  next
    case False
    with Cons.prems obtain ps where
      "calls s1 = (calls s @ [PathExists ?p]) @ map PathExists ps"
      using Cons.IH [of "s\<lparr>calls := calls s @ [PathExists ?p]\<rparr>"]
      by (auto simp: Let_def)
    then have "calls s1 = calls s @ map PathExists (?p # ps)"
      by simp
    then show ?thesis by blast
  qed
qed

lemma locate_output_calls:
  assumes a: "locate_output E d uid s = (r, s1)"
  shows "\<exists>ps. calls s1 = calls s @ map PathExists ps"
proof -
  let ?p = "path_join d (''audio_'' @ uid @ ''.m4a'')"
  let ?s = "s\<lparr>calls := calls s @ [PathExists ?p]\<rparr>"
  show ?thesis
  proof (cases "path_exists E ?p (world s)")
    case True
    with a have "calls s1 = calls s @ map PathExists [?p]"
      by (auto simp: locate_output_def Let_def)
    then show ?thesis by blast
  next
    case False
    obtain r' s' where f: "probe_fallbacks E d uid fallback_exts ?s = (r', s')"
      by (cases "probe_fallbacks E d uid fallback_exts ?s")
    from probe_fallbacks_calls [OF f] obtain ps where
      "calls s' = calls s @ map PathExists (?p # ps)" by auto
    moreover from a False f have "s1 = s'"
      by (auto simp: locate_output_def Let_def split: option.splits)
    ultimately show ?thesis by blast
  qed
qed

lemma extract_local_calls:
  "extract_local E url d uid s = (r, s1) \<Longrightarrow>
     (calls s1 = calls s @
        [CheckCall ExtractAudio (ffmpeg_cmd url (path_join d (''audio_'' @ uid @ ''.m4a'')))]
        \<and> isl r) \<or>
     (calls s1 = calls s @
        [CheckCall ExtractAudio (ffmpeg_cmd url (path_join d (''audio_'' @ uid @ ''.m4a''))),
         CheckOutput ProbeSource (probe_cmd url)] \<and> \<not> isl r)"
  by (auto simp: extract_local_def Let_def split: prod.splits option.splits
      dest!: sys_call_calls probe_duration_calls)

lemma repair_calls:
  "repair E d uid af pcmd s = (p, s1) \<Longrightarrow>
     \<exists>cs. calls s1 = calls s @
             CheckCall Repair (fix_cmd af (path_join d (''audio_'' @ uid @ ''_fixed.m4a''))) # cs
        \<and> filter is_repair cs = [] \<and> filter is_downloader cs = []"
  by (auto simp: repair_def Let_def split: prod.splits option.splits
      dest!: sys_call_calls probe_duration_calls)

subsection \<open>File names\<close>

lemma suffix_short: 
  assumes "suffix a (c @ b)" "length a \<le> length b" 
  shows "suffix a b"
proof -
  from assms(1) have "prefix (rev a) (rev b @ rev c)" by (simp add: suffix_to_prefix)
  then consider "prefix (rev a) (rev b)" | us where "rev a = rev b @ us"
    by (auto simp: prefix_append)
  then show ?thesis
  proof cases
    case 1
    then show ?thesis by (simp add: suffix_to_prefix)
  next
    case 2
    then have "length a = length b + length us" by (metis length_append length_rev)
    with assms(2) have "us = []" by simp
    with 2 show ?thesis by (simp add: suffix_to_prefix)
  qed
qed

lemma not_fixed_m4a:
  assumes hex: "set uid \<subseteq> set ''0123456789abcdef''" and len: "length uid = 8"
  shows "\<not> suffix ''_fixed.m4a'' (x @ ''audio_'' @ uid @ ''.m4a'')"
proof
  assume s: "suffix ''_fixed.m4a'' (x @ ''audio_'' @ uid @ ''.m4a'')"
  have a: "''_fixed.m4a'' = ''_fixed'' @ ''.m4a''" by simp
  have b: "x @ ''audio_'' @ uid @ ''.m4a'' = ((x @ ''audio_'') @ uid) @ ''.m4a''" by simp
  from s have "suffix ''_fixed'' ((x @ ''audio_'') @ uid)"
    unfolding a b by (simp only: same_suffix_suffix)
  then have "suffix ''_fixed'' uid" by (rule suffix_short) (simp add: len)
  then have "set ''_fixed'' \<subseteq> set uid" by (rule set_mono_suffix)
  then have "CHR ''_'' \<in> set uid" by simp
  with hex have "CHR ''_'' \<in> set ''0123456789abcdef''" by blast
  then show False by simp
qed

lemma not_fixed_other:
  assumes "ext \<in> set [''webm'', ''mp4'', ''mp3'', ''wav'']"
  shows "\<not> suffix ''_fixed.m4a'' (y @ ''.'' @ ext)"
proof
  assume s: "suffix ''_fixed.m4a'' (y @ ''.'' @ ext)"
  then obtain z where "y @ ''.'' @ ext = z @ ''_fixed.m4a''" by (auto simp: suffix_def)
  then have "last (y @ ''.'' @ ext) = CHR ''a''" by simp
  with assms show False by auto
qed

lemma hex_digit_in: "hex_digit n \<in> set ''0123456789abcdef''"
proof -
  have "n mod 16 < length ''0123456789abcdef''" by simp
  then show ?thesis unfolding hex_digit_def by (rule nth_mem)
qed

lemma unique_id_take: "take 8 (uuid_str u) = take 8 (uuid_hex u)"
  by (simp add: uuid_str_def Let_def uuid_hex_def)

lemma unique_id_length: "length (take 8 (uuid_str u)) = 8"
  by (simp add: unique_id_take uuid_hex_def)

lemma unique_id_hex: "set (take 8 (uuid_str u)) \<subseteq> set ''0123456789abcdef''"
proof -
  have "set (take 8 (uuid_hex u)) \<subseteq> set (uuid_hex u)" by (rule set_take_subset)
  also have "\<dots> \<subseteq> set ''0123456789abcdef''"
    unfolding uuid_hex_def using hex_digit_in by auto
  finally show ?thesis by (simp only: unique_id_take)
qed

lemma path_join_append: "\<exists>x. path_join d name = x @ name"
  by (auto simp: path_join_def)

lemma audio_path_not_fixed:
  assumes "ext \<in> set (''m4a'' # fallback_exts)"
  shows "\<not> suffix ''_fixed.m4a'' (path_join d (''audio_'' @ take 8 (uuid_str u) @ ''.'' @ ext))"
proof -
  obtain x where x: "path_join d (''audio_'' @ take 8 (uuid_str u) @ ''.'' @ ext) =
      x @ ''audio_'' @ take 8 (uuid_str u) @ ''.'' @ ext"
    using path_join_append by blast
  show ?thesis
  proof (cases "ext = ''m4a''")
    case True
    then show ?thesis
      using not_fixed_m4a [OF unique_id_hex unique_id_length, of x u] x by simp
  next
    case False
    with assms have "ext \<in> set [''webm'', ''mp4'', ''mp3'', ''wav'']"
      by (simp add: fallback_exts_def)
    from not_fixed_other [OF this, of "x @ ''audio_'' @ take 8 (uuid_str u)"] x
    show ?thesis by simp
  qed
qed

subsection \<open>Acquisition\<close>

lemma probe_fallbacks_result:
  "probe_fallbacks E d uid exts s = (Some p, s1) \<Longrightarrow>
     \<exists>ext \<in> set exts. p = path_join d (''audio_'' @ uid @ ''.'' @ ext)"
  by (induction exts arbitrary: s) (auto simp: Let_def split: if_splits)

lemma locate_output_result:
  "locate_output E d uid s = (Inr p, s1) \<Longrightarrow>
     \<exists>ext \<in> set (''m4a'' # fallback_exts). p = path_join d (''audio_'' @ uid @ ''.'' @ ext)"
  by (auto simp: locate_output_def Let_def split: if_splits prod.splits option.splits
      dest!: probe_fallbacks_result)

lemma prepare_unique_id:
  "prepare E self url d s = (Inr (uid, loc, a), s1) \<Longrightarrow> \<exists>u. uid = take 8 (uuid_str u)"
  by (auto simp: prepare_def Let_def split: prod.splits option.splits sum.splits)

lemma extract_local_result:
  "extract_local E url d uid s = (Inr (af, title, expected), s1) \<Longrightarrow>
     af = path_join d (''audio_'' @ uid @ ''.m4a'') \<and> title = JStr (basename url) \<and>
     (\<exists>x. expected = JNum x)"
  by (auto simp: extract_local_def Let_def split: prod.splits option.splits)

lemma acquire_audio_file:
  assumes "acquire E self url d s = (Inr (uid, af, title, expected), s1)"
  shows "\<exists>u. uid = take 8 (uuid_str u) \<and>
           (\<exists>ext \<in> set (''m4a'' # fallback_exts). af = path_join d (''audio_'' @ uid @ ''.'' @ ext))"
  using assms
  by (auto simp: acquire_def split: prod.splits sum.splits if_splits
      dest!: prepare_unique_id extract_local_result locate_output_result)

lemma acquire_not_fixed:
  assumes "acquire E self url d s = (Inr (uid, af, title, expected), s1)"
  shows "\<not> suffix ''_fixed.m4a'' af"
proof -
  from acquire_audio_file [OF assms] obtain u ext where
    "uid = take 8 (uuid_str u)" "ext \<in> set (''m4a'' # fallback_exts)"
    "af = path_join d (''audio_'' @ uid @ ''.'' @ ext)" by blast
  then show ?thesis using audio_path_not_fixed [of ext d u] by simp
qed

lemma acquire_no_repair:
  assumes "acquire E self url d s = (r, s1)"
  shows "\<exists>cs. calls s1 = calls s @ cs \<and> filter is_repair cs = []"
proof -
  obtain r0 s0 where p: "prepare E self url d s = (r0, s0)"
    by (cases "prepare E self url d s")
  from prepare_calls [OF p] obtain c0 where c0: "calls s0 = calls s @ c0" "filter is_repair c0 = []"
    by auto
  show ?thesis
  proof (cases r0)
    case (Inl e)
    with assms p have "s1 = s0" by (simp add: acquire_def)
    with c0 show ?thesis by blast
  next
    case (Inr t)
    then obtain uid loc a where t: "r0 = Inr (uid, loc, a)" by (cases t) auto
    show ?thesis
    proof (cases loc)
      case True
      obtain r2 s2 where x: "extract_local E url d uid s0 = (r2, s2)"
        by (cases "extract_local E url d uid s0")
      from extract_local_calls [OF x] obtain c1 where "calls s2 = calls s0 @ c1" "filter is_repair c1 = []"
        by auto
      moreover from assms p t True x have "s1 = s2"
        by (auto simp: acquire_def split: sum.splits)
      ultimately have "calls s1 = calls s @ (c0 @ c1) \<and> filter is_repair (c0 @ c1) = []"
        using c0 by simp
      then show ?thesis by blast
    next
      case False
      obtain r2 s2 where x: "with_ydl E a (fetch_remote E a url) s0 = (r2, s2)"
        by (cases "with_ydl E a (fetch_remote E a url) s0")
      from with_ydl_fetch_calls [OF x] obtain c1 where c1: "calls s2 = calls s0 @ c1" "filter is_repair c1 = []"
        by auto
      show ?thesis
      proof (cases r2)
        case (Inl e)
        with assms p t False x have "s1 = s2" by (auto simp: acquire_def)
        with c0 c1 have "calls s1 = calls s @ (c0 @ c1) \<and> filter is_repair (c0 @ c1) = []" by simp
        then show ?thesis by blast
      next
        case (Inr v)
        obtain r3 s3 where l: "locate_output E d uid s2 = (r3, s3)"
          by (cases "locate_output E d uid s2")
        from locate_output_calls [OF l] obtain ps where ps: "calls s3 = calls s2 @ map PathExists ps"
          by blast
        have f: "filter is_repair (map PathExists ps) = []" by (induction ps) auto
        from assms p t False x Inr l have "s1 = s3"
          by (auto simp: acquire_def split: sum.splits prod.splits)
        with c0 c1 ps f have "calls s1 = calls s @ (c0 @ c1 @ map PathExists ps) \<and>
            filter is_repair (c0 @ c1 @ map PathExists ps) = []" by simp
        then show ?thesis by blast
      qed
    qed
  qed
qed

section \<open>The claims\<close>

lemma new_calls_append: "calls s' = calls s @ cs \<Longrightarrow> new_calls s s' = cs"
  by (simp add: new_calls_def)


text \<open>
  C2. When the expected duration is zero, or the probed duration is zero, or both are
  non-zero and differ by at most a tenth of the expected one, the repair command is not
  run and the call returns the path of the transcode, which does not end in \<open>_fixed.m4a\<close>.
\<close>

theorem no_repair_within_tolerance:
  assumes acq: "acquire E self url output_dir s = (Inr (unique_id, audio_file, video_title, JNum D), s1)"
      and probe: "probe_duration E ProbeAudio (probe_cmd audio_file) s1 = (r, s2)"
      and ok: "D = 0 \<or> duration_or_zero r = 0 \<or>
               (D \<noteq> 0 \<and> duration_or_zero r \<noteq> 0 \<and> \<bar>duration_or_zero r - D\<bar> / D \<le> 1 / 10)"
  shows "download_and_convert E self url output_dir s = (Inr (audio_file, video_title), s2) \<and>
         filter is_repair (new_calls s s2) = [] \<and>
         \<not> suffix ''_fixed.m4a'' audio_file"
proof -
  from ok have m: "duration_mismatch (JNum D) (duration_or_zero r) = Inr False"
    by (auto simp: duration_mismatch_def)
  from acq probe m have res:
    "download_and_convert E self url output_dir s = (Inr (audio_file, video_title), s2)"
    by (simp add: download_and_convert_def download_and_convert_try_def validate_def Let_def)
  from acquire_no_repair [OF acq] obtain c1 where c1: "calls s1 = calls s @ c1" "filter is_repair c1 = []"
    by blast
  from probe_duration_calls [OF probe] c1
  have "calls s2 = calls s @ (c1 @ [CheckOutput ProbeAudio (probe_cmd audio_file)])"
    by simp
  then have "new_calls s s2 = c1 @ [CheckOutput ProbeAudio (probe_cmd audio_file)]"
    by (rule new_calls_append)
  with c1 have "filter is_repair (new_calls s s2) = []" by simp
  with res acquire_not_fixed [OF acq] show ?thesis by simp
qed

subsection \<open>Running the simulated environment\<close>

lemma unique_id_zero: "take 8 (uuid_str 0) = ''00000000''"
  by (simp add: uuid_str_def uuid_hex_def hex_digit_def Let_def upt_rec)

lemma path_join_out: "path_join ''out'' name = ''out/'' @ name"
  by (simp add: path_join_def suffix_Cons)

lemmas run_defs = download_and_convert_def download_and_convert_try_def acquire_def prepare_def
  with_ydl_def fetch_remote_def locate_output_def extract_local_def validate_def repair_def
  probe_duration_def sys_call_def lib_call_def heap_alloc_def obj_copy_def obj_setitem_def
  heap_lookup_def dict_items_def duration_mismatch_def duration_or_zero_def is_local_video_def
  endswith_any_def str_lower_def lower_char_def video_suffixes_def info_get_def fallback_exts_def
  Let_def

lemmas sim_defs = sim_env_def sim_state_def sim_self_def video_processor_init_def sim_meta_def
  sim_strip_def sim_float_def unique_id_zero path_join_out suffix_Cons


theorem no_repair_within_tolerance_witness:
  "fst (download_and_convert
     (sim_env (Inr (Some sim_meta)) None [''out/audio_00000000.m4a'']
        (\<lambda>c. None) (\<lambda>c. Inr ''95.0''))
     sim_self ''https://example.com/watch?v=abc123'' ''out'' (sim_state [])) =
   Inr (''out/audio_00000000.m4a'', JStr ''A talk'') \<and>
   \<not> suffix ''_fixed.m4a'' ''out/audio_00000000.m4a''"
proof -
  let ?E = "sim_env (Inr (Some sim_meta)) None [''out/audio_00000000.m4a'']
              (\<lambda>c. None) (\<lambda>c. Inr ''95.0'')"
  let ?url = "''https://example.com/watch?v=abc123''"
  define s1 where "s1 = snd (acquire ?E sim_self ?url ''out'' (sim_state []))"
  define s2 where "s2 = snd (probe_duration ?E ProbeAudio (probe_cmd ''out/audio_00000000.m4a'') s1)"
  have a: "acquire ?E sim_self ?url ''out'' (sim_state []) =
      (Inr (''00000000'', ''out/audio_00000000.m4a'', JStr ''A talk'', JNum 100), s1)"
    unfolding s1_def by (simp add: run_defs sim_defs)
  have p: "probe_duration ?E ProbeAudio (probe_cmd ''out/audio_00000000.m4a'') s1 = (Inr 95, s2)"
    unfolding s2_def by (simp add: probe_duration_def sys_call_def sim_defs)
  from no_repair_within_tolerance [OF a p] show ?thesis
    by (simp add: duration_or_zero_def)
qed

lemma probe_fallbacks_find:
  "fst (probe_fallbacks E d uid exts s) =
     find (\<lambda>p. path_exists E p (world s)) (map (\<lambda>ext. path_join d (''audio_'' @ uid @ ''.'' @ ext)) exts)"
  by (induction exts arbitrary: s) (simp_all add: Let_def)

text \<open>
  C4. On the remote branch, after a download that raised nothing: if the file
  \<open>audio_<id>.m4a\<close> does not exist, the locator returns the first of the candidates with the
  extensions webm, mp4, mp3, wav (in this order) that exists; if none exists either, the
  call fails with the exception "audio file not found" of line 117, under the summary of
  line 148.
\<close>

theorem locate_fallback_order:
  assumes prep: "prepare E self url output_dir s = (Inr (unique_id, False, opts), s1)"
      and fetch: "with_ydl E opts (fetch_remote E opts url) s1 =
                    (Inr (video_title, expected_duration), s2)"
      and nop: "\<not> path_exists E (path_join output_dir (''audio_'' @ unique_id @ ''.m4a'')) (world s2)"
  shows "case find (\<lambda>p. path_exists E p (world s2))
               (map (\<lambda>ext. path_join output_dir (''audio_'' @ unique_id @ ''.'' @ ext))
                  [''webm'', ''mp4'', ''mp3'', ''wav'']) of
           Some p \<Rightarrow>
             (\<exists>s3. locate_output E output_dir unique_id s2 = (Inr p, s3) \<and>
                   acquire E self url output_dir s =
                     (Inr (unique_id, p, video_title, expected_duration), s3))
         | None \<Rightarrow>
             (\<exists>s3. locate_output E output_dir unique_id s2 =
                     (Inl (Exn ''Exception'' audio_not_found None), s3) \<and>
                   download_and_convert E self url output_dir s =
                     (Inl (reraise processing_failed (Exn ''Exception'' audio_not_found None)), s3))"
proof -
  let ?primary = "path_join output_dir (''audio_'' @ unique_id @ ''.m4a'')"
  let ?s = "s2\<lparr>calls := calls s2 @ [PathExists ?primary]\<rparr>"
  let ?cands = "map (\<lambda>ext. path_join output_dir (''audio_'' @ unique_id @ ''.'' @ ext))
                  [''webm'', ''mp4'', ''mp3'', ''wav'']"
  obtain r s3 where pf: "probe_fallbacks E output_dir unique_id fallback_exts ?s = (r, s3)"
    by (cases "probe_fallbacks E output_dir unique_id fallback_exts ?s")
  have r: "r = find (\<lambda>p. path_exists E p (world s2)) ?cands"
    using probe_fallbacks_find [of E output_dir unique_id fallback_exts ?s] pf
    by (simp add: fallback_exts_def)
  show ?thesis
  proof (cases r)
    case None
    with pf nop have l: "locate_output E output_dir unique_id s2 =
        (Inl (Exn ''Exception'' audio_not_found None), s3)"
      by (simp add: locate_output_def Let_def)
    with prep fetch have "download_and_convert E self url output_dir s =
        (Inl (reraise processing_failed (Exn ''Exception'' audio_not_found None)), s3)"
      by (simp add: download_and_convert_def download_and_convert_try_def acquire_def)
    with l None r show ?thesis by (auto split: option.splits)
  next
    case (Some p)
    with pf nop have l: "locate_output E output_dir unique_id s2 = (Inr p, s3)"
      by (simp add: locate_output_def Let_def)
    with prep fetch have "acquire E self url output_dir s =
        (Inr (unique_id, p, video_title, expected_duration), s3)"
      by (simp add: acquire_def)
    with l Some r show ?thesis by (auto split: option.splits)
  qed
qed

theorem locate_fallback_order_witness:
  "(\<exists>s3. acquire
          (sim_env (Inr (Some sim_meta)) None [''out/audio_00000000.mp3'', ''out/audio_00000000.webm'']
             (\<lambda>c. None) (\<lambda>c. Inr ''100.0''))
          sim_self ''https://example.com/watch?v=abc123'' ''out'' (sim_state []) =
        (Inr (''00000000'', ''out/audio_00000000.webm'', JStr ''A talk'', JNum 100), s3)) \<and>
   (\<exists>s3. download_and_convert
          (sim_env (Inr (Some sim_meta)) None [] (\<lambda>c. None) (\<lambda>c. Inr ''100.0''))
          sim_self ''https://example.com/watch?v=abc123'' ''out'' (sim_state []) =
        (Inl (reraise processing_failed (Exn ''Exception'' audio_not_found None)), s3))"
proof -
  let ?url = "''https://example.com/watch?v=abc123''"
  let ?E = "sim_env (Inr (Some sim_meta)) None [''out/audio_00000000.mp3'', ''out/audio_00000000.webm'']
              (\<lambda>c. None) (\<lambda>c. Inr ''100.0'')"
  define s1 where "s1 = snd (prepare ?E sim_self ?url ''out'' (sim_state []))"
  define s2 where "s2 = snd (with_ydl ?E 4 (fetch_remote ?E 4 ?url) s1)"
  have a: "prepare ?E sim_self ?url ''out'' (sim_state []) = (Inr (''00000000'', False, 4), s1)"
    unfolding s1_def by (simp add: run_defs sim_defs)
  have b: "with_ydl ?E 4 (fetch_remote ?E 4 ?url) s1 = (Inr (JStr ''A talk'', JNum 100), s2)"
    unfolding s2_def by (simp add: run_defs sim_defs)
  have w: "world s2 = [''out/audio_00000000.mp3'', ''out/audio_00000000.webm'']"
    unfolding s2_def s1_def by (simp add: run_defs sim_defs)
  have c: "\<not> path_exists ?E (path_join ''out'' (''audio_'' @ ''00000000'' @ ''.m4a'')) (world s2)"
    unfolding w by (simp add: sim_defs)
  have i: "find (\<lambda>p. path_exists ?E p (world s2))
              (map (\<lambda>ext. path_join ''out'' (''audio_'' @ ''00000000'' @ ''.'' @ ext))
                 [''webm'', ''mp4'', ''mp3'', ''wav'']) = Some ''out/audio_00000000.webm''"
    unfolding w by (simp add: sim_env_def path_join_out)
  have 1: "\<exists>s3. acquire ?E sim_self ?url ''out'' (sim_state []) =
        (Inr (''00000000'', ''out/audio_00000000.webm'', JStr ''A talk'', JNum 100), s3)"
    using locate_fallback_order [OF a b c] unfolding i by auto
  let ?F = "sim_env (Inr (Some sim_meta)) None [] (\<lambda>c. None) (\<lambda>c. Inr ''100.0'')"
  define t1 where "t1 = snd (prepare ?F sim_self ?url ''out'' (sim_state []))"
  define t2 where "t2 = snd (with_ydl ?F 4 (fetch_remote ?F 4 ?url) t1)"
  have a': "prepare ?F sim_self ?url ''out'' (sim_state []) = (Inr (''00000000'', False, 4), t1)"
    unfolding t1_def by (simp add: run_defs sim_defs)
  have b': "with_ydl ?F 4 (fetch_remote ?F 4 ?url) t1 = (Inr (JStr ''A talk'', JNum 100), t2)"
    unfolding t2_def by (simp add: run_defs sim_defs)
  have w': "world t2 = []"
    unfolding t2_def t1_def by (simp add: run_defs sim_defs)
  have c': "\<not> path_exists ?F (path_join ''out'' (''audio_'' @ ''00000000'' @ ''.m4a'')) (world t2)"
    unfolding w' by (simp add: sim_defs)
  have i': "find (\<lambda>p. path_exists ?F p (world t2))
              (map (\<lambda>ext. path_join ''out'' (''audio_'' @ ''00000000'' @ ''.'' @ ext))
                 [''webm'', ''mp4'', ''mp3'', ''wav'']) = None"
    unfolding w' by (simp add: sim_env_def path_join_out)
  have 2: "\<exists>s3. download_and_convert ?F sim_self ?url ''out'' (sim_state []) =
        (Inl (reraise processing_failed (Exn ''Exception'' audio_not_found None)), s3)"
    using locate_fallback_order [OF a' b' c'] unfolding i' by auto
  from 1 2 show ?thesis by blast
qed

text \<open>
  C6. A duration probe that raises is not propagated. On the local branch, when the probe
  of the source raises, the expected duration is 0 and the call goes on and returns; on
  either branch, when the probe of the audio file raises, the actual duration is 0, no
  repair is tried and the call returns the audio file.
\<close>

theorem probe_failure_swallowed:
  "(prepare E self url output_dir s = (Inr (unique_id, True, opts), s1) \<and>
    af = path_join output_dir (''audio_'' @ unique_id @ ''.m4a'') \<and>
    sys_call (check_call E (ffmpeg_cmd url af)) (CheckCall ExtractAudio (ffmpeg_cmd url af)) s1 =
      (None, s2) \<and>
    probe_duration E ProbeSource (probe_cmd url) s2 = (Inl e, s3)
    \<longrightarrow> acquire E self url output_dir s = (Inr (unique_id, af, JStr (basename url), JNum 0), s3) \<and>
        (\<exists>s'. download_and_convert E self url output_dir s = (Inr (af, JStr (basename url)), s')))
   \<and>
   (acquire E self url output_dir s =
      (Inr (unique_id, audio_file, video_title, expected_duration), t1) \<and>
    probe_duration E ProbeAudio (probe_cmd audio_file) t1 = (Inl e', t2)
    \<longrightarrow> download_and_convert E self url output_dir s = (Inr (audio_file, video_title), t2))"
proof (intro conjI impI)
  assume h: "prepare E self url output_dir s = (Inr (unique_id, True, opts), s1) \<and>
    af = path_join output_dir (''audio_'' @ unique_id @ ''.m4a'') \<and>
    sys_call (check_call E (ffmpeg_cmd url af)) (CheckCall ExtractAudio (ffmpeg_cmd url af)) s1 =
      (None, s2) \<and>
    probe_duration E ProbeSource (probe_cmd url) s2 = (Inl e, s3)"
  then have p: "prepare E self url output_dir s = (Inr (unique_id, True, opts), s1)"
    and c: "sys_call (check_call E (ffmpeg_cmd url af)) (CheckCall ExtractAudio (ffmpeg_cmd url af)) s1 =
      (None, s2)"
    and d: "probe_duration E ProbeSource (probe_cmd url) s2 = (Inl e, s3)"
    by blast+
  from h have af: "path_join output_dir (''audio_'' @ unique_id @ ''.m4a'') = af" by simp
  have x: "extract_local E url output_dir unique_id s1 =
      (Inr (af, JStr (basename url), JNum 0), s3)"
    unfolding extract_local_def Let_def af by (simp add: c d duration_or_zero_def)
  with p show a: "acquire E self url output_dir s =
      (Inr (unique_id, af, JStr (basename url), JNum 0), s3)"
    by (simp add: acquire_def)
  obtain r s4 where p: "probe_duration E ProbeAudio (probe_cmd af) s3 = (r, s4)"
    by (cases "probe_duration E ProbeAudio (probe_cmd af) s3")
  have "duration_mismatch (JNum 0) (duration_or_zero r) = Inr False"
    by (simp add: duration_mismatch_def)
  with a p have "download_and_convert E self url output_dir s = (Inr (af, JStr (basename url)), s4)"
    by (simp add: download_and_convert_def download_and_convert_try_def validate_def Let_def)
  then show "\<exists>s'. download_and_convert E self url output_dir s = (Inr (af, JStr (basename url)), s')"
    by blast
next
  assume h: "acquire E self url output_dir s =
      (Inr (unique_id, audio_file, video_title, expected_duration), t1) \<and>
    probe_duration E ProbeAudio (probe_cmd audio_file) t1 = (Inl e', t2)"
  have "duration_mismatch expected_duration 0 = Inr False"
    by (simp add: duration_mismatch_def)
  with h show "download_and_convert E self url output_dir s = (Inr (audio_file, video_title), t2)"
    by (simp add: download_and_convert_def download_and_convert_try_def validate_def Let_def
        duration_or_zero_def)
qed

theorem probe_failure_swallowed_witness:
  "fst (download_and_convert
     (sim_env (Inr (Some sim_meta)) None [] (\<lambda>c. None) (\<lambda>c. Inl sim_probe_error))
     sim_self ''/tmp/clip.mp4'' ''out'' (sim_state [''/tmp/clip.mp4''])) =
   Inr (''out/audio_00000000.m4a'', JStr ''clip.mp4'')"
proof -
  let ?E = "sim_env (Inr (Some sim_meta)) None [] (\<lambda>c. None) (\<lambda>c. Inl sim_probe_error)"
  let ?url = "''/tmp/clip.mp4''"
  let ?s = "sim_state [''/tmp/clip.mp4'']"
  let ?af = "''out/audio_00000000.m4a''"
  define s1 where "s1 = snd (prepare ?E sim_self ?url ''out'' ?s)"
  define s2 where "s2 = snd (sys_call (check_call ?E (ffmpeg_cmd ?url ?af))
                               (CheckCall ExtractAudio (ffmpeg_cmd ?url ?af)) s1)"
  define s3 where "s3 = snd (probe_duration ?E ProbeSource (probe_cmd ?url) s2)"
  define t2 where "t2 = snd (probe_duration ?E ProbeAudio (probe_cmd ?af) s3)"
  have a: "prepare ?E sim_self ?url ''out'' ?s = (Inr (''00000000'', True, 4), s1)"
    unfolding s1_def by (simp add: run_defs sim_defs)
  have b: "?af = path_join ''out'' (''audio_'' @ ''00000000'' @ ''.m4a'')"
    by (simp add: path_join_out)
  have c: "sys_call (check_call ?E (ffmpeg_cmd ?url ?af))
             (CheckCall ExtractAudio (ffmpeg_cmd ?url ?af)) s1 = (None, s2)"
    unfolding s2_def by (simp add: sys_call_def sim_env_def)
  have d: "probe_duration ?E ProbeSource (probe_cmd ?url) s2 = (Inl sim_probe_error, s3)"
    unfolding s3_def by (simp add: probe_duration_def sys_call_def sim_env_def)
  have e: "probe_duration ?E ProbeAudio (probe_cmd ?af) s3 = (Inl sim_probe_error, t2)"
    unfolding t2_def by (simp add: probe_duration_def sys_call_def sim_env_def)
  have f: "basename ?url = ''clip.mp4''"
    by (simp add: basename_def)
  from probe_failure_swallowed [of ?E sim_self ?url "''out''" ?s "''00000000''" 4 s1 ?af s2
      sim_probe_error s3 ?af "JStr (basename ?url)" "JNum 0" s3 sim_probe_error t2] a b c d e
  show ?thesis by (simp add: f)
qed

subsection \<open>Validation\<close>

lemma validate_calls:
  assumes "validate E d uid af expected s = (r, s1)"
  shows "\<exists>cs. calls s1 = calls s @ cs \<and> filter is_downloader cs = [] \<and>
              filter is_local_extraction cs = []"
proof -
  obtain x s2 where p: "probe_duration E ProbeAudio (probe_cmd af) s = (x, s2)"
    by (cases "probe_duration E ProbeAudio (probe_cmd af) s")
  from probe_duration_calls [OF p]
  have c: "calls s2 = calls s @ [CheckOutput ProbeAudio (probe_cmd af)]" by simp
  show ?thesis
  proof (cases "duration_mismatch expected (duration_or_zero x) = Inr True")
    case True
    obtain q s3 where rp: "repair E d uid af (probe_cmd af) s2 = (q, s3)"
      by (cases "repair E d uid af (probe_cmd af) s2")
    from repair_calls [OF rp] obtain cs where
      cs: "calls s3 = calls s2 @
             CheckCall Repair (fix_cmd af (path_join d (''audio_'' @ uid @ ''_fixed.m4a''))) # cs"
          "filter is_downloader cs = []" by blast
    have l: "filter is_local_extraction cs = []"
      using rp cs(1)
      by (auto simp: repair_def Let_def split: prod.splits option.splits
          dest!: sys_call_calls probe_duration_calls)
    from assms p True rp have "s1 = s3" by (simp add: validate_def Let_def)
    with c cs l have "calls s1 = calls s @ ([CheckOutput ProbeAudio (probe_cmd af)] @
        CheckCall Repair (fix_cmd af (path_join d (''audio_'' @ uid @ ''_fixed.m4a''))) # cs) \<and>
      filter is_downloader ([CheckOutput ProbeAudio (probe_cmd af)] @
        CheckCall Repair (fix_cmd af (path_join d (''audio_'' @ uid @ ''_fixed.m4a''))) # cs) = [] \<and>
      filter is_local_extraction ([CheckOutput ProbeAudio (probe_cmd af)] @
        CheckCall Repair (fix_cmd af (path_join d (''audio_'' @ uid @ ''_fixed.m4a''))) # cs) = []"
      by simp
    then show ?thesis by blast
  next
    case False
    with assms p have "s1 = s2"
      by (auto simp: validate_def Let_def split: sum.splits bool.splits)
    with c have "calls s1 = calls s @ [CheckOutput ProbeAudio (probe_cmd af)] \<and>
      filter is_downloader [CheckOutput ProbeAudio (probe_cmd af)] = [] \<and>
      filter is_local_extraction [CheckOutput ProbeAudio (probe_cmd af)] = []" by simp
    then show ?thesis by blast
  qed
qed

subsection \<open>Base names\<close>

lemma basename_split:
  "\<exists>d. url = d @ basename url \<and> (d = [] \<or> last d = CHR ''/'')"
proof -
  let ?P = "\<lambda>c. c \<noteq> CHR ''/''"
  let ?d = "rev (dropWhile ?P (rev url))"
  have "url = rev (takeWhile ?P (rev url) @ dropWhile ?P (rev url))"
    by (simp only: takeWhile_dropWhile_id rev_rev_ident)
  also have "\<dots> = ?d @ rev (takeWhile ?P (rev url))" by (simp only: rev_append)
  finally have u: "url = ?d @ basename url" by (simp only: basename_def)
  have "?d = [] \<or> last ?d = CHR ''/''"
  proof (cases "dropWhile ?P (rev url) = []")
    case True
    then show ?thesis by simp
  next
    case False
    then have "\<not> ?P (hd (dropWhile ?P (rev url)))" by (rule hd_dropWhile)
    with False show ?thesis by (simp add: last_rev)
  qed
  with u show ?thesis by blast
qed

lemma basename_no_slash: "CHR ''/'' \<notin> set (basename url)"
  by (auto simp: basename_def dest: set_takeWhileD)

subsection \<open>The two branches\<close>

lemma prepare_ok_calls:
  "prepare E self url d s = (Inr x, s1) \<Longrightarrow> calls s1 = calls s @ [MkDir d, Uuid4, PathExists url]"
  by (drule prepare_calls) auto

lemma acquire_local:
  assumes "prepare E self url d s = (Inr (uid, True, a), s1)"
      and "acquire E self url d s = (ra, s2)"
  shows "\<exists>rx. extract_local E url d uid s1 = (rx, s2) \<and> isl rx = isl ra"
  using assms by (auto simp: acquire_def split: prod.splits sum.splits)

lemma acquire_local_ok:
  assumes "prepare E self url d s = (Inr (uid, True, a), s1)"
      and "acquire E self url d s = (Inr (uid', af, title, expected), s2)"
  shows "extract_local E url d uid s1 = (Inr (af, title, expected), s2) \<and> uid' = uid"
  using assms by (auto simp: acquire_def split: prod.splits sum.splits)

lemma acquire_remote:
  assumes "prepare E self url d s = (Inr (uid, False, a), s1)"
      and "acquire E self url d s = (ra, s3)"
  shows "\<exists>rf s2. with_ydl E a (fetch_remote E a url) s1 = (rf, s2) \<and>
           ((isl rf \<and> isl ra \<and> s3 = s2) \<or>
            (\<not> isl rf \<and> (\<exists>rl. locate_output E d uid s2 = (rl, s3) \<and> isl rl = isl ra)))"
  using assms by (auto simp: acquire_def split: prod.splits sum.splits)

lemma run_after_acquire:
  assumes "download_and_convert E self url d s = (r, s')"
      and "acquire E self url d s = (ra, s1)"
  shows "(isl ra \<and> s' = s1 \<and> isl r) \<or>
         (\<exists>uid af title expected rv.
            ra = Inr (uid, af, title, expected) \<and> validate E d uid af expected s1 = (rv, s'))"
  using assms
  by (auto simp: download_and_convert_def download_and_convert_try_def
      split: prod.splits sum.splits)

lemma run_success:
  assumes "download_and_convert E self url d s = (Inr (p, t), s')"
  shows "\<exists>uid af expected s1.
           acquire E self url d s = (Inr (uid, af, t, expected), s1) \<and>
           validate E d uid af expected s1 = (Inr p, s')"
  using assms
  by (auto simp: download_and_convert_def download_and_convert_try_def
      split: prod.splits sum.splits)

lemma local_run_calls:
  assumes prep: "prepare E self url d s = (Inr (uid, True, a), s1)"
      and run: "download_and_convert E self url d s = (r, s')"
  shows "\<exists>cs. new_calls s s' = [MkDir d, Uuid4, PathExists url] @
              CheckCall ExtractAudio (ffmpeg_cmd url (path_join d (''audio_'' @ uid @ ''.m4a''))) # cs \<and>
            filter is_downloader cs = [] \<and> filter is_local_extraction cs = []"
proof -
  let ?x = "CheckCall ExtractAudio (ffmpeg_cmd url (path_join d (''audio_'' @ uid @ ''.m4a'')))"
  obtain ra s2 where acq: "acquire E self url d s = (ra, s2)"
    by (cases "acquire E self url d s")
  from acquire_local [OF prep acq] obtain rx where
    x: "extract_local E url d uid s1 = (rx, s2)" by blast
  have c1: "calls s1 = calls s @ [MkDir d, Uuid4, PathExists url]"
    using prep by (rule prepare_ok_calls)
  from extract_local_calls [OF x] obtain c2 where
    c2: "calls s2 = calls s1 @ ?x # c2" "filter is_downloader c2 = []"
        "filter is_local_extraction c2 = []" by auto
  from run_after_acquire [OF run acq] show ?thesis
  proof
    assume "isl ra \<and> s' = s2 \<and> isl r"
    with c1 c2 have "calls s' = calls s @ ([MkDir d, Uuid4, PathExists url] @ ?x # c2)" by simp
    then have "new_calls s s' = [MkDir d, Uuid4, PathExists url] @ ?x # c2"
      by (rule new_calls_append)
    with c2 show ?thesis by blast
  next
    assume "\<exists>uid af title expected rv.
            ra = Inr (uid, af, title, expected) \<and> validate E d uid af expected s2 = (rv, s')"
    then obtain uid' af title expected rv where v: "validate E d uid' af expected s2 = (rv, s')"
      by blast
    from validate_calls [OF v] obtain c3 where
      c3: "calls s' = calls s2 @ c3" "filter is_downloader c3 = []"
          "filter is_local_extraction c3 = []" by blast
    with c1 c2 have "calls s' = calls s @ ([MkDir d, Uuid4, PathExists url] @ ?x # (c2 @ c3))"
      by simp
    then have "new_calls s s' = [MkDir d, Uuid4, PathExists url] @ ?x # (c2 @ c3)"
      by (rule new_calls_append)
    moreover from c2 c3 have "filter is_downloader (c2 @ c3) = []"
      "filter is_local_extraction (c2 @ c3) = []" by simp_all
    ultimately show ?thesis by blast
  qed
qed

lemma local_run_title:
  assumes prep: "prepare E self url d s = (Inr (uid, True, a), s1)"
      and run: "download_and_convert E self url d s = (Inr (p, t), s')"
  shows "t = JStr (basename url)"
proof -
  from run_success [OF run] obtain uid' af expected s2 where
    acq: "acquire E self url d s = (Inr (uid', af, t, expected), s2)" by blast
  from acquire_local_ok [OF prep acq]
  have "extract_local E url d uid s1 = (Inr (af, t, expected), s2)" by simp
  then show ?thesis by (simp add: extract_local_result)
qed

text \<open>
  C7. When the input is classified as a local file, the title that the call returns is the
  base name of the input path (what follows its last slash, extension included), and the
  call makes no call into the download library, the only collaborator that uses the
  network.
\<close>

theorem local_title_is_basename:
  assumes prep: "prepare E self url output_dir s = (Inr (unique_id, True, opts), s1)"
      and run: "download_and_convert E self url output_dir s = (r, s')"
  shows "(\<forall>p t. r = Inr (p, t) \<longrightarrow> t = JStr (basename url)) \<and>
         filter is_downloader (new_calls s s') = [] \<and>
         (\<exists>d. url = d @ basename url \<and> (d = [] \<or> last d = CHR ''/'')) \<and>
         CHR ''/'' \<notin> set (basename url)"
proof -
  have "\<forall>p t. r = Inr (p, t) \<longrightarrow> t = JStr (basename url)"
    using local_run_title [OF prep] run by blast
  moreover from local_run_calls [OF prep run] have "filter is_downloader (new_calls s s') = []"
    by auto
  ultimately show ?thesis using basename_split [of url] basename_no_slash [of url] by blast
qed

theorem local_title_is_basename_witness:
  "fst (download_and_convert
     (sim_env (Inr (Some sim_meta)) None [] (\<lambda>c. None) (\<lambda>c. Inr ''100.0''))
     sim_self ''/tmp/clip.mp4'' ''out'' (sim_state [''/tmp/clip.mp4''])) =
     Inr (''out/audio_00000000.m4a'', JStr ''clip.mp4'') \<and>
   filter is_downloader (new_calls (sim_state [''/tmp/clip.mp4''])
     (snd (download_and_convert
       (sim_env (Inr (Some sim_meta)) None [] (\<lambda>c. None) (\<lambda>c. Inr ''100.0''))
       sim_self ''/tmp/clip.mp4'' ''out'' (sim_state [''/tmp/clip.mp4''])))) = []"
proof -
  let ?E = "sim_env (Inr (Some sim_meta)) None [] (\<lambda>c. None) (\<lambda>c. Inr ''100.0'')"
  let ?url = "''/tmp/clip.mp4''"
  let ?s = "sim_state [''/tmp/clip.mp4'']"
  define s1 where "s1 = snd (prepare ?E sim_self ?url ''out'' ?s)"
  have a: "prepare ?E sim_self ?url ''out'' ?s = (Inr (''00000000'', True, 4), s1)"
    unfolding s1_def by (simp add: run_defs sim_defs)
  have f: "fst (download_and_convert ?E sim_self ?url ''out'' ?s) =
      Inr (''out/audio_00000000.m4a'', JStr (basename ?url))"
    by (simp add: run_defs sim_defs)
  have b: "download_and_convert ?E sim_self ?url ''out'' ?s =
      (Inr (''out/audio_00000000.m4a'', JStr (basename ?url)),
       snd (download_and_convert ?E sim_self ?url ''out'' ?s))"
    using f by (metis prod.collapse)
  have c: "basename ?url = ''clip.mp4''" by (simp add: basename_def)
  from local_title_is_basename [OF a b] f show ?thesis by (simp add: c)
qed

subsection \<open>The options of a call\<close>

lemma prepare_opts:
  assumes "prepare E self url d s = (Inr (uid, loc, a), s1)"
  shows "\<exists>kvs. heap_lookup (heap s) (ydl_opts self) = Some (PyDict kvs) \<and>
           a = length (heap s) \<and>
           heap s1 = heap s @
             [PyDict (AList.update ''outtmpl''
                        (PStr (path_join d (''audio_'' @ uid @ ''.%(ext)s''))) kvs)]"
  using assms
  by (auto simp: prepare_def Let_def obj_copy_def obj_setitem_def heap_alloc_def heap_lookup_def
      split: prod.splits option.splits sum.splits pyobj.splits if_splits
      dest!: sys_call_calls)

lemma prepare_items:
  assumes "prepare E self url d s = (Inr (uid, loc, a), s1)"
  shows "dict_items (heap s1) a =
           AList.update ''outtmpl'' (PStr (path_join d (''audio_'' @ uid @ ''.%(ext)s'')))
             (dict_items (heap s) (ydl_opts self))"
  using prepare_opts [OF assms]
  by (auto simp: dict_items_def heap_lookup_def)

lemma remote_run_shape:
  assumes prep: "prepare E self url d s = (Inr (uid, False, a), s1)"
      and run: "download_and_convert E self url d s = (r, s')"
  shows "\<exists>cs. new_calls s s' = [MkDir d, Uuid4, PathExists url] @ YoutubeDL a (dict_items (heap s1) a) # cs \<and>
           filter is_local_extraction cs = [] \<and>
           ((filter is_downloader cs = [] \<and> isl r) \<or>
            (filter is_downloader cs = [ExtractInfo url False, YdlExit] \<and> isl r) \<or>
            filter is_downloader cs = [ExtractInfo url False, Download [url], YdlExit])"
proof -
  let ?y = "YoutubeDL a (dict_items (heap s1) a)"
  let ?pre = "[MkDir d, Uuid4, PathExists url]"
  obtain ra s3 where acq: "acquire E self url d s = (ra, s3)"
    by (cases "acquire E self url d s")
  have c1: "calls s1 = calls s @ ?pre"
    using prep by (rule prepare_ok_calls)
  from acquire_remote [OF prep acq] obtain rf s2 where
    f: "with_ydl E a (fetch_remote E a url) s1 = (rf, s2)"
    and alt: "(isl rf \<and> isl ra \<and> s3 = s2) \<or>
              (\<not> isl rf \<and> (\<exists>rl. locate_output E d uid s2 = (rl, s3) \<and> isl rl = isl ra))"
    by blast
  from with_ydl_fetch_calls [OF f] have c2:
    "(calls s2 = calls s1 @ [?y] \<and> isl rf) \<or>
     (calls s2 = calls s1 @ [?y, ExtractInfo url False, YdlExit] \<and> isl rf) \<or>
     calls s2 = calls s1 @ [?y, ExtractInfo url False, Download [url], YdlExit]" .
  have pe: "filter is_downloader (map PathExists ps) = []" for ps
    by (induction ps) auto
  have pl: "filter is_local_extraction (map PathExists ps) = []" for ps
    by (induction ps) auto
  from alt show ?thesis
  proof
    assume h: "isl rf \<and> isl ra \<and> s3 = s2"
    with run_after_acquire [OF run acq] have e: "s' = s2" "isl r" by auto
    from c2 show ?thesis
    proof (elim disjE conjE)
      assume "calls s2 = calls s1 @ [?y]"
      with c1 e have "calls s' = calls s @ (?pre @ ?y # [])" by simp
      then have "new_calls s s' = ?pre @ ?y # []"
        by (rule new_calls_append)
      with e show ?thesis by simp
    next
      assume "calls s2 = calls s1 @ [?y, ExtractInfo url False, YdlExit]"
      with c1 e have "calls s' = calls s @ (?pre @ ?y # [ExtractInfo url False, YdlExit])" by simp
      then have "new_calls s s' = ?pre @ ?y # [ExtractInfo url False, YdlExit]"
        by (rule new_calls_append)
      with e show ?thesis by simp
    next
      assume "calls s2 = calls s1 @ [?y, ExtractInfo url False, Download [url], YdlExit]"
      with c1 e have "calls s' = calls s @
          (?pre @ ?y # [ExtractInfo url False, Download [url], YdlExit])" by simp
      then have "new_calls s s' = ?pre @ ?y # [ExtractInfo url False, Download [url], YdlExit]"
        by (rule new_calls_append)
      then show ?thesis by simp
    qed
  next
    assume "\<not> isl rf \<and> (\<exists>rl. locate_output E d uid s2 = (rl, s3) \<and> isl rl = isl ra)"
    then obtain rl where nf: "\<not> isl rf" and l: "locate_output E d uid s2 = (rl, s3)" by blast
    from c2 nf have c2': "calls s2 = calls s1 @ [?y, ExtractInfo url False, Download [url], YdlExit]"
      by auto
    from locate_output_calls [OF l] obtain ps where c3: "calls s3 = calls s2 @ map PathExists ps"
      by blast
    have "\<exists>c4. calls s' = calls s3 @ c4 \<and> filter is_downloader c4 = [] \<and>
            filter is_local_extraction c4 = []"
      using run_after_acquire [OF run acq]
    proof
      assume "isl ra \<and> s' = s3 \<and> isl r"
      then show ?thesis by simp
    next
      assume "\<exists>uid af title expected rv.
            ra = Inr (uid, af, title, expected) \<and> validate E d uid af expected s3 = (rv, s')"
      then obtain uid' af expected rv where "validate E d uid' af expected s3 = (rv, s')"
        by blast
      from validate_calls [OF this] show ?thesis by blast
    qed
    then obtain c4 where c4: "calls s' = calls s3 @ c4" "filter is_downloader c4 = []"
      "filter is_local_extraction c4 = []" by blast
    let ?cs = "[ExtractInfo url False, Download [url], YdlExit] @ map PathExists ps @ c4"
    from c1 c2' c3 c4 have "calls s' = calls s @ (?pre @ ?y # ?cs)" by simp
    then have "new_calls s s' = ?pre @ ?y # ?cs"
      by (rule new_calls_append)
    moreover from c4 pe pl have "filter is_local_extraction ?cs = []"
      "filter is_downloader ?cs = [ExtractInfo url False, Download [url], YdlExit]" by simp_all
    ultimately show ?thesis by blast
  qed
qed











subsection \<open>Extensions\<close>

lemma of_char_lower_char:
  "(of_char (lower_char c) :: nat) =
     (if 65 \<le> (of_char c :: nat) \<and> (of_char c :: nat) \<le> 90 then of_char c + 32 else of_char c)"
  by (simp add: lower_char_def Let_def)

lemma lower_char_dot: "lower_char c = CHR ''.'' \<longleftrightarrow> c = CHR ''.''"
proof
  assume a: "lower_char c = CHR ''.''"
  then have "(of_char (lower_char c) :: nat) = 46" by simp
  then have "(of_char c :: nat) = 46"
    by (simp add: of_char_lower_char split: if_splits)
  then have "(of_char c :: nat) = of_char CHR ''.''" by simp
  then show "c = CHR ''.''" by (simp only: of_char_eq_iff)
next
  assume "c = CHR ''.''"
  then show "lower_char c = CHR ''.''" by (simp add: lower_char_def)
qed

lemma dot_in_str_lower: "CHR ''.'' \<in> set (str_lower x) \<longleftrightarrow> CHR ''.'' \<in> set x"
proof
  assume "CHR ''.'' \<in> set (str_lower x)"
  then obtain c where "c \<in> set x" "lower_char c = CHR ''.''"
    by (auto simp: str_lower_def)
  then show "CHR ''.'' \<in> set x" by (simp add: lower_char_dot)
next
  assume "CHR ''.'' \<in> set x"
  moreover have "lower_char CHR ''.'' = CHR ''.''" by (simp add: lower_char_dot)
  ultimately show "CHR ''.'' \<in> set (str_lower x)"
    unfolding str_lower_def set_map by (metis imageI)
qed

lemma extension_append:
  assumes "CHR ''.'' \<notin> set x"
  shows "extension (p @ CHR ''.'' # x) = Some x"
proof -
  have "takeWhile (\<lambda>c. c \<noteq> CHR ''.'') (rev x @ CHR ''.'' # rev p) = rev x"
    using assms by (simp add: takeWhile_append)
  then show ?thesis by (simp add: extension_def)
qed

lemma extension_split:
  assumes "extension url = Some x"
  shows "\<exists>p. url = p @ CHR ''.'' # x"
proof -
  let ?P = "\<lambda>c. c \<noteq> CHR ''.''"
  from assms have d: "CHR ''.'' \<in> set url" and x: "x = rev (takeWhile ?P (rev url))"
    by (auto simp: extension_def split: if_splits)
  from d have "dropWhile ?P (rev url) \<noteq> []" by (simp add: dropWhile_eq_Nil_conv)
  moreover from this have "\<not> ?P (hd (dropWhile ?P (rev url)))" by (rule hd_dropWhile)
  ultimately obtain q where q: "dropWhile ?P (rev url) = CHR ''.'' # q"
    by (cases "dropWhile ?P (rev url)") auto
  have "url = rev (takeWhile ?P (rev url) @ dropWhile ?P (rev url))"
    by (simp only: takeWhile_dropWhile_id rev_rev_ident)
  also have "\<dots> = rev q @ CHR ''.'' # x" by (simp add: q x)
  finally show ?thesis by blast
qed

lemma suffix_lower_extension:
  assumes e: "CHR ''.'' \<notin> set e"
  shows "suffix (CHR ''.'' # e) (str_lower url) \<longleftrightarrow>
           (\<exists>x. extension url = Some x \<and> str_lower x = e)"
proof
  assume "suffix (CHR ''.'' # e) (str_lower url)"
  then obtain z where "map lower_char url = z @ CHR ''.'' # e"
    by (auto simp: suffix_def str_lower_def)
  then obtain p q where pq: "url = p @ q" "map lower_char q = CHR ''.'' # e"
    by (auto simp: map_eq_append_conv)
  then obtain c x where cx: "q = c # x" "lower_char c = CHR ''.''" "map lower_char x = e"
    by (cases q) auto
  then have c: "c = CHR ''.''" by (simp add: lower_char_dot)
  have "CHR ''.'' \<notin> set x"
    using e cx(3) dot_in_str_lower [of x] by (simp add: str_lower_def)
  then have "extension (p @ CHR ''.'' # x) = Some x" by (rule extension_append)
  with pq cx c show "\<exists>x. extension url = Some x \<and> str_lower x = e"
    by (simp add: str_lower_def)
next
  assume "\<exists>x. extension url = Some x \<and> str_lower x = e"
  then obtain x where x: "extension url = Some x" "str_lower x = e" by blast
  from extension_split [OF x(1)] obtain p where "url = p @ CHR ''.'' # x" by blast
  then have "str_lower url = str_lower p @ CHR ''.'' # e"
    using x(2) by (simp add: str_lower_def lower_char_def)
  then show "suffix (CHR ''.'' # e) (str_lower url)" by (simp add: suffix_def)
qed

lemma is_local_video_spec: "is_local_video E url w = spec_is_local_ci E url w"
proof -
  have "endswith_any (str_lower url) video_suffixes \<longleftrightarrow>
        (\<exists>x. extension url = Some x \<and> str_lower x \<in> set video_extensions)"
    using suffix_lower_extension [of "''mp4''" url] suffix_lower_extension [of "''mov''" url]
      suffix_lower_extension [of "''avi''" url] suffix_lower_extension [of "''flv''" url]
    by (auto simp: endswith_any_def video_suffixes_def video_extensions_def)
  then show ?thesis
    by (auto simp: is_local_video_def spec_is_local_ci_def split: option.splits)
qed

lemma prepare_classifies:
  assumes "mkdir E d (world s) = (None, w1)" and "uuid4 E w1 = (u, w2)"
      and "heap_lookup (heap s) (ydl_opts self) = Some (PyDict kvs)"
  shows "\<exists>s1. prepare E self url d s =
           (Inr (take 8 (uuid_str u), is_local_video E url w2, length (heap s)), s1)"
  using assms
  by (auto simp: prepare_def sys_call_def Let_def obj_copy_def obj_setitem_def heap_alloc_def
      heap_lookup_def nth_append split: if_splits)

lemma char_of_lower:
  "char_of (99::nat) = CHR ''c''" "char_of (108::nat) = CHR ''l''"
  "char_of (105::nat) = CHR ''i''" "char_of (112::nat) = CHR ''p''"
  "char_of (109::nat) = CHR ''m''"
  by code_simp+

text \<open>
  C3, as the code has it. Once the output directory is made and the options are copied,
  the input is classified by the file system alone: the calls made up to the
  classification are \<open>mkdir\<close>, \<open>uuid4\<close> and \<open>os.path.exists\<close>. The local branch (the one that
  runs the extraction command) is taken if and only if the path exists and its extension,
  compared without regard to case, is one of mp4, mov, avi, flv; otherwise, and only then,
  the input is handed to the download library, whether it is reachable or not.
\<close>

theorem classification_by_extension:
  assumes mk: "mkdir E output_dir (world s) = (None, w1)"
      and uu: "uuid4 E w1 = (u, w2)"
      and opts: "heap_lookup (heap s) (ydl_opts self) = Some (PyDict kvs)"
      and run: "download_and_convert E self url output_dir s = (r, s')"
  shows "(list_ex is_local_extraction (new_calls s s') \<longleftrightarrow> spec_is_local_ci E url w2) \<and>
         (list_ex is_downloader (new_calls s s') \<longleftrightarrow> \<not> spec_is_local_ci E url w2) \<and>
         take 3 (new_calls s s') = [MkDir output_dir, Uuid4, PathExists url]"
proof -
  from prepare_classifies [OF mk uu opts] obtain s1 where
    prep: "prepare E self url output_dir s =
           (Inr (take 8 (uuid_str u), is_local_video E url w2, length (heap s)), s1)" by blast
  have ex: "list_ex P xs \<longleftrightarrow> filter P xs \<noteq> []" for P and xs :: "call list"
    by (induction xs) auto
  show ?thesis
  proof (cases "is_local_video E url w2")
    case True
    with prep have p: "prepare E self url output_dir s =
        (Inr (take 8 (uuid_str u), True, length (heap s)), s1)" by simp
    from local_run_calls [OF p run] True show ?thesis
      by (auto simp: ex is_local_video_spec)
  next
    case False
    with prep have p: "prepare E self url output_dir s =
        (Inr (take 8 (uuid_str u), False, length (heap s)), s1)" by simp
    from remote_run_shape [OF p run] False show ?thesis
      by (auto simp: ex is_local_video_spec)
  qed
qed

theorem classification_by_extension_witness:
  "list_ex is_local_extraction (new_calls (sim_state [''/tmp/CLIP.MP4''])
     (snd (download_and_convert
        (sim_env (Inr (Some sim_meta)) None [] (\<lambda>c. None) (\<lambda>c. Inr ''100.0''))
        sim_self ''/tmp/CLIP.MP4'' ''out'' (sim_state [''/tmp/CLIP.MP4''])))) \<and>
   \<not> list_ex is_downloader (new_calls (sim_state [''/tmp/CLIP.MP4''])
     (snd (download_and_convert
        (sim_env (Inr (Some sim_meta)) None [] (\<lambda>c. None) (\<lambda>c. Inr ''100.0''))
        sim_self ''/tmp/CLIP.MP4'' ''out'' (sim_state [''/tmp/CLIP.MP4'']))))"
proof -
  let ?E = "sim_env (Inr (Some sim_meta)) None [] (\<lambda>c. None) (\<lambda>c. Inr ''100.0'')"
  let ?url = "''/tmp/CLIP.MP4''"
  let ?s = "sim_state [''/tmp/CLIP.MP4'']"
  have a: "mkdir ?E ''out'' (world ?s) = (None, [''/tmp/CLIP.MP4''])"
    by (simp add: sim_env_def sim_state_def)
  have b: "uuid4 ?E [''/tmp/CLIP.MP4''] = (0, [''/tmp/CLIP.MP4''])"
    by (simp add: sim_env_def)
  have c: "heap_lookup (heap ?s) (ydl_opts sim_self) =
      Some (PyDict [(''format'', PStr ''bestaudio/best''),
                    (''outtmpl'', PStr ''%(title)s.%(ext)s''),
                    (''postprocessors'', PRef 1),
                    (''postprocessor_args'', PRef 2),
                    (''prefer_ffmpeg'', PBool True),
                    (''quiet'', PBool True),
                    (''no_warnings'', PBool True),
                    (''noplaylist'', PBool True)])"
    by (simp add: sim_state_def sim_self_def video_processor_init_def heap_alloc_def
        heap_lookup_def)
  have d: "download_and_convert ?E sim_self ?url ''out'' ?s =
      (fst (download_and_convert ?E sim_self ?url ''out'' ?s),
       snd (download_and_convert ?E sim_self ?url ''out'' ?s))" by simp
  have e: "spec_is_local_ci ?E ?url [''/tmp/CLIP.MP4'']"
    by (simp add: spec_is_local_ci_def extension_def video_extensions_def str_lower_def
        lower_char_def sim_env_def char_of_lower)
  from classification_by_extension [OF a b c d] e show ?thesis by simp
qed

theorem classification_case_counterexample:
  "list_ex is_local_extraction (new_calls (sim_state [''/tmp/CLIP.MP4''])
     (snd (download_and_convert
        (sim_env (Inr (Some sim_meta)) None [] (\<lambda>c. None) (\<lambda>c. Inr ''100.0''))
        sim_self ''/tmp/CLIP.MP4'' ''out'' (sim_state [''/tmp/CLIP.MP4''])))) \<and>
   fst (download_and_convert
        (sim_env (Inr (Some sim_meta)) None [] (\<lambda>c. None) (\<lambda>c. Inr ''100.0''))
        sim_self ''/tmp/CLIP.MP4'' ''out'' (sim_state [''/tmp/CLIP.MP4''])) =
     Inr (''out/audio_00000000.m4a'', JStr ''CLIP.MP4'') \<and>
   extension ''/tmp/CLIP.MP4'' = Some ''MP4'' \<and>
   ''MP4'' \<notin> set [''mp4'', ''mov'', ''avi'', ''flv''] \<and>
   \<not> spec_is_local
        (sim_env (Inr (Some sim_meta)) None [] (\<lambda>c. None) (\<lambda>c. Inr ''100.0''))
        ''/tmp/CLIP.MP4'' [''/tmp/CLIP.MP4'']"
  by (simp add: run_defs sim_defs new_calls_def basename_def spec_is_local_def extension_def
      video_extensions_def char_of_lower)

text \<open>
  C5, as the code has it. Whatever the body raises is raised again as a new exception of
  class \<open>Exception\<close>, whose text is the summary of line 148, the same for every phase,
  followed by the text of the original exception; the original exception is the context
  of the new one. A call that fails has failed in one of the phases, and a call that
  returns has failed in none.
\<close>

theorem failures_rewrapped:
  assumes "download_and_convert E self url output_dir s = (r, s')"
  shows "(case r of
            Inl x \<Rightarrow>
              (\<exists>e. download_and_convert_try E self url output_dir s = (Inl e, s') \<and>
                   x = Exn ''Exception'' (processing_failed @ exn_str e) (Some e)) \<and>
              failed_phase E self url output_dir s \<noteq> None
          | Inr v \<Rightarrow> failed_phase E self url output_dir s = None)"
  using assms
  by (auto simp: download_and_convert_def download_and_convert_try_def acquire_def
      failed_phase_def reraise_def
      split: prod.splits sum.splits if_splits)

theorem failures_rewrapped_witness:
  "fst (download_and_convert
     (sim_env (Inr (Some sim_meta)) (Some sim_no_memory) [] (\<lambda>c. None) (\<lambda>c. Inr ''100.0''))
     sim_self ''https://example.com/watch?v=abc123'' ''out'' (sim_state [])) =
   Inl (Exn ''Exception'' (processing_failed @ ''[Errno 12] Cannot allocate memory'')
          (Some sim_no_memory)) \<and>
   failed_phase
     (sim_env (Inr (Some sim_meta)) (Some sim_no_memory) [] (\<lambda>c. None) (\<lambda>c. Inr ''100.0''))
     sim_self ''https://example.com/watch?v=abc123'' ''out'' (sim_state []) \<noteq> None"
proof -
  let ?E = "sim_env (Inr (Some sim_meta)) (Some sim_no_memory) [] (\<lambda>c. None) (\<lambda>c. Inr ''100.0'')"
  let ?url = "''https://example.com/watch?v=abc123''"
  have f: "fst (download_and_convert ?E sim_self ?url ''out'' (sim_state [])) =
      Inl (Exn ''Exception'' (processing_failed @ ''[Errno 12] Cannot allocate memory'')
          (Some sim_no_memory))"
    by (simp add: run_defs sim_defs reraise_def sim_no_memory_def)
  then have b: "download_and_convert ?E sim_self ?url ''out'' (sim_state []) =
      (Inl (Exn ''Exception'' (processing_failed @ ''[Errno 12] Cannot allocate memory'')
          (Some sim_no_memory)),
       snd (download_and_convert ?E sim_self ?url ''out'' (sim_state [])))"
    by (metis prod.collapse)
  from failures_rewrapped [OF b] f show ?thesis by simp
qed

theorem summary_hides_phase_counterexample:
  "failed_phase
     (sim_env (Inr (Some sim_meta)) (Some sim_no_memory) [] (\<lambda>c. None) (\<lambda>c. Inr ''100.0''))
     sim_self ''https://example.com/watch?v=abc123'' ''out'' (sim_state []) = Some Acquisition \<and>
   failed_phase
     (sim_env (Inr (Some sim_meta)) None [] (\<lambda>c. Some sim_no_memory) (\<lambda>c. Inr ''100.0''))
     sim_self ''/tmp/clip.mp4'' ''out'' (sim_state [''/tmp/clip.mp4'']) = Some LocalExtraction \<and>
   fst (download_and_convert
     (sim_env (Inr (Some sim_meta)) (Some sim_no_memory) [] (\<lambda>c. None) (\<lambda>c. Inr ''100.0''))
     sim_self ''https://example.com/watch?v=abc123'' ''out'' (sim_state [])) =
     Inl (reraise processing_failed sim_no_memory) \<and>
   fst (download_and_convert
     (sim_env (Inr (Some sim_meta)) None [] (\<lambda>c. Some sim_no_memory) (\<lambda>c. Inr ''100.0''))
     sim_self ''/tmp/clip.mp4'' ''out'' (sim_state [''/tmp/clip.mp4''])) =
     Inl (reraise processing_failed sim_no_memory)"
  by (simp add: run_defs sim_defs failed_phase_def)

subsection \<open>The store\<close>

lemma keeps_frame_prefix:
  assumes k: "keeps_frame a f" and f: "f h w = (r, h', w')"
      and p: "prefix h0 h" and a: "length h0 \<le> a"
  shows "prefix h0 h'"
proof -
  note k [unfolded keeps_frame_def, THEN spec, THEN spec, of h w]
  with f have l: "length h \<le> length h'" and n: "\<forall>b < length h. b \<noteq> a \<longrightarrow> h' ! b = h ! b"
    by simp_all
  from p obtain t where t: "h = h0 @ t" by (auto simp: prefix_def)
  have "take (length h0) h' = h0"
  proof (rule nth_equalityI)
    show "length (take (length h0) h') = length h0" using l t by simp
  next
    fix i assume "i < length (take (length h0) h')"
    then have i: "i < length h0" by simp
    with a t have "i < length h" "i \<noteq> a" by simp_all
    with n have "h' ! i = h ! i" by blast
    with i t show "take (length h0) h' ! i = h0 ! i" by (simp add: nth_append)
  qed
  then have "prefix (take (length h0) h') h' \<Longrightarrow> prefix h0 h'" by simp
  then show ?thesis using take_is_prefix by blast
qed

lemma lib_call_frame:
  assumes "keeps_frame a f" and "lib_call f c s = (r, s1)"
      and "prefix h0 (heap s)" and "length h0 \<le> a"
  shows "prefix h0 (heap s1)"
proof -
  obtain r' h' w' where f: "f (heap s) (world s) = (r', h', w')"
    by (cases "f (heap s) (world s)")
  with assms(2) have "heap s1 = h'" by (auto simp: lib_call_def)
  with keeps_frame_prefix [OF assms(1) f assms(3,4)] show ?thesis by simp
qed

lemma fetch_remote_frame:
  assumes fr: "library_frame E" and run: "fetch_remote E a url s = (r, s1)"
      and p: "prefix h0 (heap s)" and a: "length h0 \<le> a"
  shows "prefix h0 (heap s1)"
proof -
  from fr have k1: "keeps_frame a (ydl_extract_info E a url False)"
    and k2: "keeps_frame a (ydl_download E a [url])"
    by (simp_all add: library_frame_def)
  obtain x s2 where x: "lib_call (ydl_extract_info E a url False) (ExtractInfo url False) s = (x, s2)"
    by (cases "lib_call (ydl_extract_info E a url False) (ExtractInfo url False) s")
  have p2: "prefix h0 (heap s2)" by (rule lib_call_frame [OF k1 x p a])
  obtain y s3 where y: "lib_call (ydl_download E a [url]) (Download [url]) s2 = (y, s3)"
    by (cases "lib_call (ydl_download E a [url]) (Download [url]) s2")
  have p3: "prefix h0 (heap s3)" by (rule lib_call_frame [OF k2 y p2 a])
  from run x y have "s1 = s2 \<or> s1 = s3"
    by (auto simp: fetch_remote_def Let_def split: sum.splits option.splits)
  with p2 p3 show ?thesis by blast
qed

lemma with_ydl_frame:
  assumes fr: "library_frame E" and run: "with_ydl E a body s = (r, s1)"
      and body: "\<And>t r' t'. body t = (r', t') \<Longrightarrow> prefix h0 (heap t) \<Longrightarrow> prefix h0 (heap t')"
      and p: "prefix h0 (heap s)" and a: "length h0 \<le> a"
  shows "prefix h0 (heap s1)"
proof -
  let ?c = "YoutubeDL a (dict_items (heap s) a)"
  from fr have k1: "keeps_frame a (ydl_init E a)"
    and k2: "\<And>x. keeps_frame a (ydl_exit E a x)"
    by (simp_all add: library_frame_def)
  obtain x s2 where x: "lib_call (ydl_init E a) ?c s = (x, s2)"
    by (cases "lib_call (ydl_init E a) ?c s")
  have p2: "prefix h0 (heap s2)" by (rule lib_call_frame [OF k1 x p a])
  obtain rb s3 where b: "body s2 = (rb, s3)" by (cases "body s2")
  have p3: "prefix h0 (heap s3)" by (rule body [OF b p2])
  let ?x = "case rb of Inl e \<Rightarrow> Some e | Inr v \<Rightarrow> None"
  obtain y s4 where y: "lib_call (ydl_exit E a ?x) YdlExit s3 = (y, s4)"
    by (cases "lib_call (ydl_exit E a ?x) YdlExit s3")
  have p4: "prefix h0 (heap s4)" by (rule lib_call_frame [OF k2 y p3 a])
  from run x b y have "s1 = s2 \<or> s1 = s4"
    by (auto simp: with_ydl_def split: option.splits)
  with p2 p4 show ?thesis by blast
qed

lemma probe_fallbacks_heap:
  "probe_fallbacks E d uid exts s = (r, s1) \<Longrightarrow> heap s1 = heap s"
  by (induction exts arbitrary: s) (auto simp: Let_def split: if_splits)

lemma locate_output_heap:
  "locate_output E d uid s = (r, s1) \<Longrightarrow> heap s1 = heap s"
  by (auto simp: locate_output_def Let_def split: if_splits prod.splits option.splits
      dest!: probe_fallbacks_heap)

lemma extract_local_heap:
  "extract_local E url d uid s = (r, s1) \<Longrightarrow> heap s1 = heap s"
  by (auto simp: extract_local_def Let_def split: prod.splits option.splits
      dest!: sys_call_calls probe_duration_calls)

lemma repair_heap:
  "repair E d uid af pcmd s = (p, s1) \<Longrightarrow> heap s1 = heap s"
  by (auto simp: repair_def Let_def split: prod.splits option.splits
      dest!: sys_call_calls probe_duration_calls)

lemma validate_heap:
  assumes "validate E d uid af expected s = (r, s1)"
  shows "heap s1 = heap s"
proof -
  obtain x s2 where p: "probe_duration E ProbeAudio (probe_cmd af) s = (x, s2)"
    by (cases "probe_duration E ProbeAudio (probe_cmd af) s")
  from probe_duration_calls [OF p] have h2: "heap s2 = heap s" by simp
  show ?thesis
  proof (cases "duration_mismatch expected (duration_or_zero x) = Inr True")
    case True
    obtain q s3 where rp: "repair E d uid af (probe_cmd af) s2 = (q, s3)"
      by (cases "repair E d uid af (probe_cmd af) s2")
    from assms p True rp have "s1 = s3" by (simp add: validate_def Let_def)
    with repair_heap [OF rp] h2 show ?thesis by simp
  next
    case False
    with assms p have "s1 = s2"
      by (auto simp: validate_def Let_def split: sum.splits bool.splits)
    with h2 show ?thesis by simp
  qed
qed

lemma prepare_heap:
  assumes "prepare E self url d s = (r, s1)"
  shows "prefix (heap s) (heap s1) \<and> (\<forall>uid loc a. r = Inr (uid, loc, a) \<longrightarrow> a = length (heap s))"
  using assms
  by (auto simp: prepare_def Let_def obj_copy_def obj_setitem_def heap_alloc_def heap_lookup_def
      split: prod.splits option.splits sum.splits pyobj.splits if_splits
      dest!: sys_call_calls)

lemma acquire_heap:
  assumes fr: "library_frame E" and run: "acquire E self url d s = (r, s')"
  shows "prefix (heap s) (heap s')"
proof -
  obtain rp s1 where prep: "prepare E self url d s = (rp, s1)"
    by (cases "prepare E self url d s")
  from prepare_heap [OF prep] have p1: "prefix (heap s) (heap s1)"
    and a: "\<forall>uid loc a. rp = Inr (uid, loc, a) \<longrightarrow> a = length (heap s)" by simp_all
  show ?thesis
  proof (cases rp)
    case (Inl e)
    with run prep have "s' = s1" by (simp add: acquire_def)
    with p1 show ?thesis by simp
  next
    case (Inr t)
    then obtain uid loc o' where t: "rp = Inr (uid, loc, o')" by (cases t) auto
    with a have o': "o' = length (heap s)" by simp
    show ?thesis
    proof (cases loc)
      case True
      from prep t True have "prepare E self url d s = (Inr (uid, True, o'), s1)" by simp
      from acquire_local [OF this run] obtain rx where
        "extract_local E url d uid s1 = (rx, s')" by blast
      from extract_local_heap [OF this] p1 show ?thesis by simp
    next
      case False
      from prep t False have "prepare E self url d s = (Inr (uid, False, o'), s1)" by simp
      from acquire_remote [OF this run] obtain rf s2 where
        f: "with_ydl E o' (fetch_remote E o' url) s1 = (rf, s2)"
        and alt: "(isl rf \<and> isl r \<and> s' = s2) \<or>
              (\<not> isl rf \<and> (\<exists>rl. locate_output E d uid s2 = (rl, s') \<and> isl rl = isl r))"
        by blast
      have p2: "prefix (heap s) (heap s2)"
      proof (rule with_ydl_frame [OF fr f _ p1])
        show "length (heap s) \<le> o'" using o' by simp
      next
        fix t r' t'
        assume "fetch_remote E o' url t = (r', t')" "prefix (heap s) (heap t)"
        then show "prefix (heap s) (heap t')"
          using fetch_remote_frame [OF fr] o' by simp
      qed
      from alt show ?thesis
      proof
        assume "isl rf \<and> isl r \<and> s' = s2"
        with p2 show ?thesis by simp
      next
        assume "\<not> isl rf \<and> (\<exists>rl. locate_output E d uid s2 = (rl, s') \<and> isl rl = isl r)"
        then obtain rl where "locate_output E d uid s2 = (rl, s')" by blast
        from locate_output_heap [OF this] p2 show ?thesis by simp
      qed
    qed
  qed
qed

lemma run_heap:
  assumes fr: "library_frame E" and run: "download_and_convert E self url d s = (r, s')"
  shows "prefix (heap s) (heap s')"
proof -
  obtain ra s1 where acq: "acquire E self url d s = (ra, s1)"
    by (cases "acquire E self url d s")
  have p: "prefix (heap s) (heap s1)" by (rule acquire_heap [OF fr acq])
  from run_after_acquire [OF run acq] show ?thesis
  proof
    assume "isl ra \<and> s' = s1 \<and> isl r"
    with p show ?thesis by simp
  next
    assume "\<exists>uid af title expected rv.
            ra = Inr (uid, af, title, expected) \<and> validate E d uid af expected s1 = (rv, s')"
    then obtain uid af expected rv where "validate E d uid af expected s1 = (rv, s')" by blast
    from validate_heap [OF this] p show ?thesis by simp
  qed
qed

lemma run_downloader_made:
  assumes run: "download_and_convert E self url d s = (r, s')"
      and y: "YoutubeDL a items \<in> set (new_calls s s')"
  shows "\<exists>uid s1. prepare E self url d s = (Inr (uid, False, a), s1) \<and>
           items = dict_items (heap s1) a"
proof -
  obtain rp s1 where prep: "prepare E self url d s = (rp, s1)"
    by (cases "prepare E self url d s")
  show ?thesis
  proof (cases rp)
    case (Inl e)
    with prep run have "s' = s1"
      by (simp add: download_and_convert_def download_and_convert_try_def acquire_def)
    with prepare_calls [OF prep] have
      "new_calls s s' = [MkDir d] \<or> new_calls s s' = [MkDir d, Uuid4, PathExists url]"
      by (auto simp: new_calls_def)
    with y show ?thesis by auto
  next
    case (Inr t)
    then obtain uid loc o' where t: "rp = Inr (uid, loc, o')" by (cases t) auto
    show ?thesis
    proof (cases loc)
      case True
      with prep t have p: "prepare E self url d s = (Inr (uid, True, o'), s1)" by simp
      from local_run_calls [OF p run] obtain cs where
        cs: "new_calls s s' = [MkDir d, Uuid4, PathExists url] @
              CheckCall ExtractAudio (ffmpeg_cmd url (path_join d (''audio_'' @ uid @ ''.m4a''))) # cs"
          "filter is_downloader cs = []" by blast
      from y cs(1) have "YoutubeDL a items \<in> set cs" by auto
      then have "YoutubeDL a items \<in> set (filter is_downloader cs)" by simp
      with cs(2) show ?thesis by simp
    next
      case False
      with prep t have p: "prepare E self url d s = (Inr (uid, False, o'), s1)" by simp
      from remote_run_shape [OF p run] obtain cs where
        cs: "new_calls s s' = [MkDir d, Uuid4, PathExists url] @
               YoutubeDL o' (dict_items (heap s1) o') # cs"
        and alt: "filter is_downloader cs = [] \<or>
                  filter is_downloader cs = [ExtractInfo url False, YdlExit] \<or>
                  filter is_downloader cs = [ExtractInfo url False, Download [url], YdlExit]"
        by blast
      have "YoutubeDL a items \<notin> set cs"
      proof
        assume "YoutubeDL a items \<in> set cs"
        then have m: "YoutubeDL a items \<in> set (filter is_downloader cs)" by simp
        from alt show False
        proof (elim disjE)
          assume e: "filter is_downloader cs = []"
          from m show False unfolding e by simp
        next
          assume e: "filter is_downloader cs = [ExtractInfo url False, YdlExit]"
          from m show False unfolding e by simp
        next
          assume e: "filter is_downloader cs = [ExtractInfo url False, Download [url], YdlExit]"
          from m show False unfolding e by simp
        qed
      qed
      with y cs have "a = o'" "items = dict_items (heap s1) o'" by auto
      with p show ?thesis by blast
    qed
  qed
qed

text \<open>
  C9. Provided the download library changes no object other than the options dictionary
  it is handed, a call leaves every object that was in the store before it as it was: the
  default options of the instance, and the lists and the dictionary they refer to, are what
  they were. The downloader is made with a dictionary allocated by this call: a copy of the
  defaults in which the output template is replaced.
\<close>

theorem defaults_not_mutated:
  assumes fr: "library_frame E"
      and run: "download_and_convert E self url output_dir s = (r, s')"
  shows "prefix (heap s) (heap s') \<and>
         (\<forall>b < length (heap s). heap_lookup (heap s') b = heap_lookup (heap s) b) \<and>
         (\<forall>a items. YoutubeDL a items \<in> set (new_calls s s') \<longrightarrow>
            a = length (heap s) \<and>
            (\<exists>unique_id. items =
               AList.update ''outtmpl''
                 (PStr (path_join output_dir (''audio_'' @ unique_id @ ''.%(ext)s'')))
                 (dict_items (heap s) (ydl_opts self))))"
proof (intro conjI allI impI)
  show p: "prefix (heap s) (heap s')" by (rule run_heap [OF fr run])
  fix b assume "b < length (heap s)"
  with p show "heap_lookup (heap s') b = heap_lookup (heap s) b"
    by (auto simp: heap_lookup_def prefix_def nth_append)
next
  fix a items assume "YoutubeDL a items \<in> set (new_calls s s')"
  from run_downloader_made [OF run this] obtain uid s1 where
    prep: "prepare E self url output_dir s = (Inr (uid, False, a), s1)"
    and i: "items = dict_items (heap s1) a" by blast
  from prepare_opts [OF prep] show "a = length (heap s)" by blast
  from i prepare_items [OF prep]
  show "\<exists>unique_id. items =
               AList.update ''outtmpl''
                 (PStr (path_join output_dir (''audio_'' @ unique_id @ ''.%(ext)s'')))
                 (dict_items (heap s) (ydl_opts self))" by blast
qed

theorem defaults_not_mutated_witness:
  "prefix (heap (sim_state []))
     (heap (snd (download_and_convert
        (sim_env (Inr (Some sim_meta)) None [''out/audio_00000000.m4a'']
           (\<lambda>c. None) (\<lambda>c. Inr ''100.0''))
        sim_self ''https://example.com/watch?v=abc123'' ''out'' (sim_state []))))"
proof -
  let ?E = "sim_env (Inr (Some sim_meta)) None [''out/audio_00000000.m4a'']
              (\<lambda>c. None) (\<lambda>c. Inr ''100.0'')"
  let ?url = "''https://example.com/watch?v=abc123''"
  have f: "library_frame ?E"
    by (simp add: library_frame_def keeps_frame_def sim_env_def)
  have b: "download_and_convert ?E sim_self ?url ''out'' (sim_state []) =
      (fst (download_and_convert ?E sim_self ?url ''out'' (sim_state [])),
       snd (download_and_convert ?E sim_self ?url ''out'' (sim_state [])))" by simp
  from defaults_not_mutated [OF f b] show ?thesis by blast
qed

subsection \<open>The metadata query\<close>






end
